theory Spec2Isabelle
  imports Main "HOL-Library.Sublist" "HOL-Library.Char_ord" "HOL-Library.List_Lexorder"
begin

section \<open>Data model: the three tables of library.db\<close>

text \<open>
  The program is a set of Python functions over one SQLite file. Each function opens its
  own connection with \<open>get_conn\<close>, runs a few SQL statements inside \<open>with conn\<close> (commit
  on normal exit, rollback when an exception escapes) and returns. The model passes the
  content of the file explicitly: a function takes the store and returns its result
  together with the store after the call; when an exception escapes, the result is the
  exception and the store is the one before the call.

  Representation choices, each visible in the definitions below:
  \<^item> a table is the list of its rows in rowid order; the primary key is the field
    \<open>b_id\<close>, \<open>m_id\<close>, \<open>l_id\<close> (the column \<open>id\<close> of the three tables);
  \<^item> \<open>AUTOINCREMENT\<close> keeps, per table, the largest rowid ever handed out
    (SQLite's \<open>sqlite_sequence\<close>): the fields \<open>seq_books\<close>, \<open>seq_members\<close>, \<open>seq_loans\<close>;
  \<^item> a Python \<open>str\<close> that the caller supplies (title, author, isbn, name, email, phone)
    is the list of its code points, type \<open>pystr\<close>; \<open>py\<close> turns a literal into one;
  \<^item> a date column holds the text that \<open>strftime\<close> produced, a \<open>string\<close> of ASCII
    characters; SQL compares and sorts it as text;
  \<^item> a \<open>datetime\<close> is its year, month and day: the program never uses the time of
    day (it formats with \<open>%Y-%m-%d\<close>, parses to midnight, adds whole days and compares
    \<open>.date()\<close>);
  \<^item> Python's \<open>int\<close> is \<open>int\<close>; a value bound to a statement must fit SQLite's signed
    64-bit INTEGER, otherwise \<open>sqlite3\<close> raises \<open>OverflowError\<close>;
  \<^item> what a function prints is a value of the datatype \<open>message\<close>.
  Exhausted resources (memory, disk space, SQLite's limit of \<open>10^9\<close> bytes for a value
  or a row) are outside the model.
\<close>

type_synonym pystr = "nat list"

definition py :: "string \<Rightarrow> pystr" where
  "py s = map of_char s"

datatype datetime = Datetime (year: int) (month: int) (day: int)

record book =
  b_id :: int
  title :: pystr
  author :: pystr
  isbn :: "pystr option"
  copies_total :: int
  copies_available :: int
  created_at :: string

record member =
  m_id :: int
  name :: pystr
  email :: "pystr option"
  phone :: "pystr option"
  joined_at :: string

record loan =
  l_id :: int
  book_id :: int
  member_id :: int
  loan_date :: string
  due_date :: string
  return_date :: "string option"

record store =
  books :: "book list"
  members :: "member list"
  loans :: "loan list"
  seq_books :: int
  seq_members :: int
  seq_loans :: int

datatype error =
    IntegrityError
  | OperationalError
  | OverflowError
  | ValueError
  | UnicodeEncodeError

datatype message =
    Cannot_delete_book
  | Book_deleted_if_existed
  | Cannot_delete_member
  | Member_deleted_if_existed
  | Book_not_found
  | No_available_copies
  | Loan_created string
  | Loan_not_found
  | Already_returned
  | Returned_late int
  | Returned_on_time

section \<open>Dates: \<open>datetime\<close>, \<open>timedelta\<close>, \<open>strftime\<close> and \<open>strptime\<close>\<close>

text \<open>The proleptic Gregorian calendar of Python's \<open>datetime\<close> module: a day and its
  ordinal (1 is 0001-01-01, 3652059 is 9999-12-31).\<close>

definition is_leap :: "int \<Rightarrow> bool" where
  "is_leap y = (y mod 4 = 0 \<and> (y mod 400 = 0 \<or> y mod 100 \<noteq> 0))"

definition days_in_month :: "bool \<Rightarrow> int \<Rightarrow> int" where
  "days_in_month leap m =
     (if m = 2 then (if leap then 29 else 28)
      else if m = 4 \<or> m = 6 \<or> m = 9 \<or> m = 11 then 30 else 31)"

definition days_before_month :: "bool \<Rightarrow> int \<Rightarrow> int" where
  "days_before_month leap m =
     [0, 31, 59, 90, 120, 151, 181, 212, 243, 273, 304, 334] ! nat (m - 1)
       + (if 2 < m \<and> leap then 1 else 0)"

definition days_before_year :: "int \<Rightarrow> int" where
  "days_before_year y = (let z = y - 1 in z * 365 + z div 4 - z div 100 + z div 400)"

definition valid_date :: "datetime \<Rightarrow> bool" where
  "valid_date dt =
     (1 \<le> year dt \<and> year dt \<le> 9999 \<and> 1 \<le> month dt \<and> month dt \<le> 12
      \<and> 1 \<le> day dt \<and> day dt \<le> days_in_month (is_leap (year dt)) (month dt))"

definition toordinal :: "datetime \<Rightarrow> int" where
  "toordinal dt =
     days_before_year (year dt) + days_before_month (is_leap (year dt)) (month dt) + day dt"

definition fromordinal :: "int \<Rightarrow> datetime" where
  "fromordinal n =
     (let n400 = (n - 1) div 146097; r400 = (n - 1) mod 146097;
          n100 = r400 div 36524; r100 = r400 mod 36524;
          n4 = r100 div 1461; r4 = r100 mod 1461;
          n1 = r4 div 365; r1 = r4 mod 365;
          y = n400 * 400 + 1 + n100 * 100 + n4 * 4 + n1
      in if n1 = 4 \<or> n100 = 4 then Datetime (y - 1) 12 31
         else
           let leap = (n1 = 3 \<and> (n100 = 3 \<or> n4 \<noteq> 24));
               m = (r1 + 50) div 32;
               p = days_before_month leap m
           in if r1 < p
              then Datetime y (m - 1) (r1 - (p - days_in_month leap (m - 1)) + 1)
              else Datetime y m (r1 - p + 1))"

text \<open>\<open>timedelta(days=days)\<close> raises \<open>OverflowError\<close> beyond 999999999 days, and
  \<open>datetime + timedelta\<close> raises it when the result leaves the years 1 to 9999.\<close>

definition timedelta :: "int \<Rightarrow> error + int" where
  "timedelta days = (if \<bar>days\<bar> > 999999999 then Inl OverflowError else Inr days)"

definition datetime_add :: "datetime \<Rightarrow> int \<Rightarrow> error + datetime" where
  "datetime_add dt k =
     (let n = toordinal dt + k
      in if 0 < n \<and> n \<le> 3652059 then Inr (fromordinal n) else Inl OverflowError)"

text \<open>Comparison and difference of two \<open>.date()\<close> values.\<close>

definition date_gt :: "datetime \<Rightarrow> datetime \<Rightarrow> bool" where
  "date_gt a b =
     (year b < year a \<or> (year a = year b \<and>
        (month b < month a \<or> (month a = month b \<and> day b < day a))))"

definition date_diff_days :: "datetime \<Rightarrow> datetime \<Rightarrow> int" where
  "date_diff_days a b = toordinal a - toordinal b"

text \<open>\<open>strftime("%Y-%m-%d")\<close> as the C library of the platform formats it (glibc): the
  year without padding, month and day with two digits.\<close>

definition digit_char :: "int \<Rightarrow> char" where
  "digit_char d = char_of (48 + d)"

definition fmt_Y :: "int \<Rightarrow> string" where
  "fmt_Y y =
     (if y < 10 then [digit_char y]
      else if y < 100 then [digit_char (y div 10), digit_char (y mod 10)]
      else if y < 1000
        then [digit_char (y div 100), digit_char (y div 10 mod 10), digit_char (y mod 10)]
      else [digit_char (y div 1000), digit_char (y div 100 mod 10),
            digit_char (y div 10 mod 10), digit_char (y mod 10)])"

definition fmt_2 :: "int \<Rightarrow> string" where
  "fmt_2 n = [digit_char (n div 10), digit_char (n mod 10)]"

definition strftime :: "datetime \<Rightarrow> string" where
  "strftime dt = fmt_Y (year dt) @ ''-'' @ fmt_2 (month dt) @ ''-'' @ fmt_2 (day dt)"

text \<open>\<open>strptime(s, "%Y-%m-%d")\<close>: the text must match the regular expression
  \<open>(\d\d\d\d)-(1[0-2]|0[1-9]|[1-9])-(3[01]|[12]\d|0[1-9]|[1-9]| [1-9])\<close> from its start,
  the first alternative that matches wins, nothing may remain after the match, and
  the three numbers must be a date. Every failure is a \<open>ValueError\<close>.\<close>

definition ord_char :: "char \<Rightarrow> int" where
  "ord_char c = of_char c"

definition is_digit :: "char \<Rightarrow> bool" where
  "is_digit c = (48 \<le> ord_char c \<and> ord_char c \<le> 57)"

definition is_digit19 :: "char \<Rightarrow> bool" where
  "is_digit19 c = (49 \<le> ord_char c \<and> ord_char c \<le> 57)"

definition digit_val :: "char \<Rightarrow> int" where
  "digit_val c = ord_char c - 48"

fun match_m :: "string \<Rightarrow> (int \<times> string) option" where
  "match_m (c1 # c2 # c3 # r) =
     (if ord_char c1 = 49 \<and> 48 \<le> ord_char c2 \<and> ord_char c2 \<le> 50 \<and> ord_char c3 = 45
        then Some (10 + digit_val c2, r)
      else if ord_char c1 = 48 \<and> is_digit19 c2 \<and> ord_char c3 = 45
        then Some (digit_val c2, r)
      else if is_digit19 c1 \<and> ord_char c2 = 45
        then Some (digit_val c1, c3 # r)
      else None)"
| "match_m [c1, c2] =
     (if is_digit19 c1 \<and> ord_char c2 = 45 then Some (digit_val c1, []) else None)"
| "match_m [c1] = None"
| "match_m [] = None"

fun match_d :: "string \<Rightarrow> (int \<times> string) option" where
  "match_d (c1 # c2 # r) =
     (if ord_char c1 = 51 \<and> 48 \<le> ord_char c2 \<and> ord_char c2 \<le> 49
        then Some (30 + digit_val c2, r)
      else if 49 \<le> ord_char c1 \<and> ord_char c1 \<le> 50 \<and> is_digit c2
        then Some (10 * digit_val c1 + digit_val c2, r)
      else if ord_char c1 = 48 \<and> is_digit19 c2
        then Some (digit_val c2, r)
      else if is_digit19 c1
        then Some (digit_val c1, c2 # r)
      else if ord_char c1 = 32 \<and> is_digit19 c2
        then Some (digit_val c2, r)
      else None)"
| "match_d [c1] = (if is_digit19 c1 then Some (digit_val c1, []) else None)"
| "match_d [] = None"

fun strptime :: "string \<Rightarrow> error + datetime" where
  "strptime (y1 # y2 # y3 # y4 # c # r) =
     (if is_digit y1 \<and> is_digit y2 \<and> is_digit y3 \<and> is_digit y4 \<and> ord_char c = 45
      then
        (case match_m r of
           None \<Rightarrow> Inl ValueError
         | Some (m, r') \<Rightarrow>
             (case match_d r' of
                None \<Rightarrow> Inl ValueError
              | Some (d, r'') \<Rightarrow>
                  let y = 1000 * digit_val y1 + 100 * digit_val y2 + 10 * digit_val y3
                            + digit_val y4
                  in if r'' = [] \<and> 1 \<le> y \<and> d \<le> days_in_month (is_leap y) m
                     then Inr (Datetime y m d) else Inl ValueError))
      else Inl ValueError)"
| "strptime [y1, y2, y3, y4] = Inl ValueError"
| "strptime [y1, y2, y3] = Inl ValueError"
| "strptime [y1, y2] = Inl ValueError"
| "strptime [y1] = Inl ValueError"
| "strptime [] = Inl ValueError"

text \<open>The two helpers of the program: \<open>today()\<close> formats the clock reading, \<open>parse_date\<close>
  parses a text with \<open>DATE_FMT\<close>.\<close>

definition today :: "datetime \<Rightarrow> string" where
  "today now = strftime now"

definition parse_date :: "string \<Rightarrow> error + datetime" where
  "parse_date s = strptime s"

section \<open>Text: \<open>str.strip\<close>\<close>

text \<open>\<open>str.strip()\<close> removes the characters for which \<open>str.isspace\<close> holds from both
  ends: the code points 9 to 13, 28 to 32, 133, 160, 5760, 8192 to 8202, 8232, 8233,
  8239, 8287 and 12288.\<close>

definition isspace :: "nat \<Rightarrow> bool" where
  "isspace c =
     ((9 \<le> c \<and> c \<le> 13) \<or> (28 \<le> c \<and> c \<le> 32) \<or> c = 133 \<or> c = 160 \<or> c = 5760
      \<or> (8192 \<le> c \<and> c \<le> 8202) \<or> c = 8232 \<or> c = 8233 \<or> c = 8239 \<or> c = 8287
      \<or> c = 12288)"

definition strip :: "pystr \<Rightarrow> pystr" where
  "strip s = rev (dropWhile isspace (rev (dropWhile isspace s)))"

text \<open>\<open>x.strip() if x else None\<close>: \<open>None\<close> and the empty string are both false.\<close>

definition strip_if :: "pystr option \<Rightarrow> pystr option" where
  "strip_if x = (case x of None \<Rightarrow> None | Some t \<Rightarrow> if t = [] then None else Some (strip t))"

section \<open>The connection and the SQL statements\<close>

text \<open>
  \<open>PRAGMA foreign_keys\<close> is a property of one connection and is off when a connection
  is opened. \<open>get_conn\<close> is \<open>sqlite3.connect(DB_FILE)\<close> and sets the row factory only.
  \<open>init_db\<close> switches the pragma on in the connection it opens itself, creates the
  tables that do not exist yet and closes that connection: of the script only the
  tables outlive the call.
\<close>

record conn =
  foreign_keys :: bool

definition get_conn :: conn where
  "get_conn = \<lparr>foreign_keys = False\<rparr>"

definition empty_store :: store where
  "empty_store = \<lparr>books = [], members = [], loans = [],
                  seq_books = 0, seq_members = 0, seq_loans = 0\<rparr>"

definition init_db :: "store option \<Rightarrow> store" where
  "init_db file =
     (let conn = get_conn\<lparr>foreign_keys := True\<rparr>
      in case file of None \<Rightarrow> empty_store | Some s \<Rightarrow> s)"

text \<open>Binding the parameters of a statement, in their order: an \<open>int\<close> outside the
  signed 64-bit range raises \<open>OverflowError\<close>, a \<open>str\<close> with a surrogate code point cannot
  be encoded as UTF-8 and raises \<open>UnicodeEncodeError\<close>. The first parameter that
  fails decides.\<close>

definition int64 :: "int \<Rightarrow> bool" where
  "int64 x = (- 9223372036854775808 \<le> x \<and> x \<le> 9223372036854775807)"

definition int_param :: "int \<Rightarrow> error option" where
  "int_param x = (if int64 x then None else Some OverflowError)"

definition surrogate :: "nat \<Rightarrow> bool" where
  "surrogate c = (55296 \<le> c \<and> c \<le> 57343)"

definition text_param :: "pystr \<Rightarrow> error option" where
  "text_param t = (if list_ex surrogate t then Some UnicodeEncodeError else None)"

definition opt_text_param :: "pystr option \<Rightarrow> error option" where
  "opt_text_param x = (case x of None \<Rightarrow> None | Some t \<Rightarrow> text_param t)"

fun bind_params :: "error option list \<Rightarrow> error option" where
  "bind_params [] = None"
| "bind_params (None # ps) = bind_params ps"
| "bind_params (Some e # ps) = Some e"

text \<open>The rowid of a new row of an \<open>AUTOINCREMENT\<close> table: one more than the largest
  rowid the table has ever held; when that is the largest 64-bit integer the insert
  fails with \<open>SQLITE_FULL\<close>, an \<open>OperationalError\<close>.\<close>

definition autoincrement :: "int \<Rightarrow> int list \<Rightarrow> error + int" where
  "autoincrement seq ids =
     (let largest = max seq (fold max ids 0)
      in if largest < 9223372036854775807 then Inr (largest + 1) else Inl OperationalError)"

text \<open>\<open>INSERT INTO books\<close>: \<open>isbn TEXT UNIQUE\<close> rejects a second row with the same
  non-null isbn.\<close>

definition insert_book ::
  "conn \<Rightarrow> pystr \<Rightarrow> pystr \<Rightarrow> pystr option \<Rightarrow> int \<Rightarrow> int \<Rightarrow> string \<Rightarrow> store
     \<Rightarrow> error + int \<times> store" where
  "insert_book c t a i ct ca d s =
     (case bind_params [text_param t, text_param a, opt_text_param i, int_param ct,
                         int_param ca] of
        Some e \<Rightarrow> Inl e
      | None \<Rightarrow>
          (case autoincrement (seq_books s) (map b_id (books s)) of
             Inl e \<Rightarrow> Inl e
           | Inr rowid \<Rightarrow>
               if i \<noteq> None \<and> i \<in> set (map isbn (books s)) then Inl IntegrityError
               else Inr (rowid,
                   s\<lparr>books := books s @
                        [\<lparr>b_id = rowid, title = t, author = a, isbn = i, copies_total = ct,
                          copies_available = ca, created_at = d\<rparr>],
                     seq_books := rowid\<rparr>)))"

text \<open>\<open>INSERT INTO members\<close>: \<open>email TEXT UNIQUE\<close>.\<close>

definition insert_member ::
  "conn \<Rightarrow> pystr \<Rightarrow> pystr option \<Rightarrow> pystr option \<Rightarrow> string \<Rightarrow> store
     \<Rightarrow> error + int \<times> store" where
  "insert_member c n e p d s =
     (case bind_params [text_param n, opt_text_param e, opt_text_param p] of
        Some err \<Rightarrow> Inl err
      | None \<Rightarrow>
          (case autoincrement (seq_members s) (map m_id (members s)) of
             Inl err \<Rightarrow> Inl err
           | Inr rowid \<Rightarrow>
               if e \<noteq> None \<and> e \<in> set (map email (members s)) then Inl IntegrityError
               else Inr (rowid,
                   s\<lparr>members := members s @
                        [\<lparr>m_id = rowid, name = n, email = e, phone = p, joined_at = d\<rparr>],
                     seq_members := rowid\<rparr>)))"

text \<open>\<open>INSERT INTO loans (book_id, member_id, loan_date, due_date)\<close>: the two
  \<open>REFERENCES\<close> clauses are enforced only on a connection with foreign keys on;
  \<open>return_date\<close> is not given and is NULL.\<close>

definition insert_loan ::
  "conn \<Rightarrow> int \<Rightarrow> int \<Rightarrow> string \<Rightarrow> string \<Rightarrow> store \<Rightarrow> error + int \<times> store" where
  "insert_loan c b m ld dd s =
     (case bind_params [int_param b, int_param m] of
        Some e \<Rightarrow> Inl e
      | None \<Rightarrow>
          (case autoincrement (seq_loans s) (map l_id (loans s)) of
             Inl e \<Rightarrow> Inl e
           | Inr rowid \<Rightarrow>
               if foreign_keys c \<and>
                  (b \<notin> set (map b_id (books s)) \<or> m \<notin> set (map m_id (members s)))
               then Inl IntegrityError
               else Inr (rowid,
                   s\<lparr>loans := loans s @
                        [\<lparr>l_id = rowid, book_id = b, member_id = m, loan_date = ld,
                          due_date = dd, return_date = None\<rparr>],
                     seq_loans := rowid\<rparr>)))"

text \<open>\<open>SELECT * FROM books WHERE id=?\<close> and \<open>SELECT * FROM loans WHERE id=?\<close> with
  \<open>fetchone()\<close>.\<close>

definition select_book :: "int \<Rightarrow> store \<Rightarrow> error + book option" where
  "select_book b s =
     (case bind_params [int_param b] of
        Some e \<Rightarrow> Inl e
      | None \<Rightarrow> Inr (find (\<lambda>r. b_id r = b) (books s)))"

definition select_loan :: "int \<Rightarrow> store \<Rightarrow> error + loan option" where
  "select_loan l s =
     (case bind_params [int_param l] of
        Some e \<Rightarrow> Inl e
      | None \<Rightarrow> Inr (find (\<lambda>r. l_id r = l) (loans s)))"

text \<open>\<open>SELECT COUNT(*) c FROM loans WHERE book_id=? AND return_date IS NULL\<close>, and the
  same count for a member.\<close>

definition count_active_book :: "int \<Rightarrow> store \<Rightarrow> error + nat" where
  "count_active_book b s =
     (case bind_params [int_param b] of
        Some e \<Rightarrow> Inl e
      | None \<Rightarrow>
          Inr (length (filter (\<lambda>l. book_id l = b \<and> return_date l = None) (loans s))))"

definition count_active_member :: "int \<Rightarrow> store \<Rightarrow> error + nat" where
  "count_active_member m s =
     (case bind_params [int_param m] of
        Some e \<Rightarrow> Inl e
      | None \<Rightarrow>
          Inr (length (filter (\<lambda>l. member_id l = m \<and> return_date l = None) (loans s))))"

text \<open>\<open>DELETE FROM books WHERE id=?\<close> and \<open>DELETE FROM members WHERE id=?\<close>:
  \<open>ON DELETE CASCADE\<close> removes the referencing loans on a connection with foreign keys
  on, and nothing else otherwise.\<close>

definition delete_from_books :: "conn \<Rightarrow> int \<Rightarrow> store \<Rightarrow> store" where
  "delete_from_books c b s =
     (let s' = s\<lparr>books := filter (\<lambda>r. b_id r \<noteq> b) (books s)\<rparr>
      in if foreign_keys c \<and> b \<in> set (map b_id (books s))
         then s'\<lparr>loans := filter (\<lambda>l. book_id l \<noteq> b) (loans s)\<rparr>
         else s')"

definition delete_from_members :: "conn \<Rightarrow> int \<Rightarrow> store \<Rightarrow> store" where
  "delete_from_members c m s =
     (let s' = s\<lparr>members := filter (\<lambda>r. m_id r \<noteq> m) (members s)\<rparr>
      in if foreign_keys c \<and> m \<in> set (map m_id (members s))
         then s'\<lparr>loans := filter (\<lambda>l. member_id l \<noteq> m) (loans s)\<rparr>
         else s')"

text \<open>\<open>UPDATE books SET copies_available = copies_available + k WHERE id=?\<close>
  (\<open>k\<close> is \<open>-1\<close> in \<open>borrow_book\<close> and \<open>1\<close> in \<open>return_book\<close>).\<close>

definition update_copies_available :: "int \<Rightarrow> int \<Rightarrow> store \<Rightarrow> store" where
  "update_copies_available b k s =
     s\<lparr>books := map (\<lambda>r. if b_id r = b
                          then r\<lparr>copies_available := copies_available r + k\<rparr> else r)
                    (books s)\<rparr>"

text \<open>\<open>UPDATE loans SET return_date=? WHERE id=?\<close>.\<close>

definition update_return_date :: "string \<Rightarrow> int \<Rightarrow> store \<Rightarrow> store" where
  "update_return_date d l s =
     s\<lparr>loans := map (\<lambda>r. if l_id r = l then r\<lparr>return_date := Some d\<rparr> else r) (loans s)\<rparr>"

section \<open>Books\<close>

definition add_book ::
  "datetime \<Rightarrow> pystr \<Rightarrow> pystr \<Rightarrow> pystr option \<Rightarrow> int \<Rightarrow> store \<Rightarrow> (error + int) \<times> store" where
  "add_book clock t a i copies s =
     (let conn = get_conn;
          now = today clock
      in case insert_book conn (strip t) (strip a) (strip_if i) copies copies now s of
           Inl e \<Rightarrow> (Inl e, s)
         | Inr (lastrowid, s') \<Rightarrow> (Inr lastrowid, s'))"

definition delete_book :: "int \<Rightarrow> store \<Rightarrow> (error + message) \<times> store" where
  "delete_book b s =
     (let conn = get_conn
      in case count_active_book b s of
           Inl e \<Rightarrow> (Inl e, s)
         | Inr active \<Rightarrow>
             if active \<noteq> 0 then (Inr Cannot_delete_book, s)
             else (Inr Book_deleted_if_existed, delete_from_books conn b s))"

section \<open>Members\<close>

definition add_member ::
  "datetime \<Rightarrow> pystr \<Rightarrow> pystr option \<Rightarrow> pystr option \<Rightarrow> store \<Rightarrow> (error + int) \<times> store" where
  "add_member clock n e p s =
     (let conn = get_conn
      in case insert_member conn (strip n) (strip_if e) (strip_if p) (today clock) s of
           Inl err \<Rightarrow> (Inl err, s)
         | Inr (lastrowid, s') \<Rightarrow> (Inr lastrowid, s'))"

definition delete_member :: "int \<Rightarrow> store \<Rightarrow> (error + message) \<times> store" where
  "delete_member m s =
     (let conn = get_conn
      in case count_active_member m s of
           Inl e \<Rightarrow> (Inl e, s)
         | Inr active \<Rightarrow>
             if active \<noteq> 0 then (Inr Cannot_delete_member, s)
             else (Inr Member_deleted_if_existed, delete_from_members conn m s))"

section \<open>Loans\<close>

text \<open>\<open>borrow_book\<close> returns what it printed and the new loan id (\<open>None\<close> on the two
  early returns). An exception leaves the \<open>with\<close> block before anything was written, or
  rolls back: the store is the one before the call.\<close>

definition borrow_book ::
  "datetime \<Rightarrow> int \<Rightarrow> int \<Rightarrow> int \<Rightarrow> store \<Rightarrow> (error + message \<times> int option) \<times> store" where
  "borrow_book clock b m days s =
     (let conn = get_conn
      in case select_book b s of
           Inl e \<Rightarrow> (Inl e, s)
         | Inr None \<Rightarrow> (Inr (Book_not_found, None), s)
         | Inr (Some bk) \<Rightarrow>
             if copies_available bk \<le> 0 then (Inr (No_available_copies, None), s)
             else
               let ld = today clock
               in case parse_date ld of
                    Inl e \<Rightarrow> (Inl e, s)
                  | Inr dt \<Rightarrow>
                 (case timedelta days of
                    Inl e \<Rightarrow> (Inl e, s)
                  | Inr td \<Rightarrow>
                      (case datetime_add dt td of
                         Inl e \<Rightarrow> (Inl e, s)
                       | Inr due_dt \<Rightarrow>
                           let due = strftime due_dt
                           in case insert_loan conn b m ld due s of
                                Inl e \<Rightarrow> (Inl e, s)
                              | Inr (lastrowid, s1) \<Rightarrow>
                                  (Inr (Loan_created due, Some lastrowid),
                                   update_copies_available b (- 1) s1))))"

text \<open>\<open>return_book\<close> reads the clock three times: \<open>today()\<close> for the stamp, and
  \<open>datetime.now()\<close> twice for the late notice. The due date is parsed after the two
  updates, inside the \<open>with\<close> block: when \<open>parse_date\<close> raises, both are rolled back.\<close>

definition return_book ::
  "datetime \<Rightarrow> datetime \<Rightarrow> datetime \<Rightarrow> int \<Rightarrow> store \<Rightarrow> (error + message) \<times> store" where
  "return_book clock now1 now2 l s =
     (let conn = get_conn
      in case select_loan l s of
           Inl e \<Rightarrow> (Inl e, s)
         | Inr None \<Rightarrow> (Inr Loan_not_found, s)
         | Inr (Some ln) \<Rightarrow>
             if return_date ln \<noteq> None then (Inr Already_returned, s)
             else
               let s1 = update_return_date (today clock) l s;
                   s2 = update_copies_available (book_id ln) 1 s1
               in case parse_date (due_date ln) of
                    Inl e \<Rightarrow> (Inl e, s)
                  | Inr due \<Rightarrow>
                      if date_gt now1 due
                      then (Inr (Returned_late (date_diff_days now2 due)), s2)
                      else (Inr Returned_on_time, s2))"

text \<open>\<open>list_overdue\<close>: the two inner joins keep a loan once for every pair of a book row
  and a member row its references match; the \<open>WHERE\<close> clause compares the due date with
  today's text, as text; \<open>ORDER BY l.due_date\<close> sorts by that text (SQLite leaves
  the order of rows with equal due dates open; the model keeps them in rowid order).
  A result row is the loan with \<open>book_title\<close> and \<open>member_name\<close>.\<close>

definition list_overdue :: "datetime \<Rightarrow> store \<Rightarrow> (loan \<times> pystr \<times> pystr) list" where
  "list_overdue clock s =
     (let today_str = today clock
      in sort_key (\<lambda>(l, bt, mn). due_date l)
           (concat (map (\<lambda>l.
              concat (map (\<lambda>b.
                map (\<lambda>m. (l, title b, name m))
                    (filter (\<lambda>m. m_id m = member_id l) (members s)))
                (filter (\<lambda>b. b_id b = book_id l) (books s))))
              (filter (\<lambda>l. return_date l = None \<and> due_date l < today_str) (loans s)))))"

section \<open>Sequences of operations\<close>

text \<open>One menu action with the arguments of the call and the clock readings taken
  during it.\<close>

datatype op =
    AddBook datetime pystr pystr "pystr option" int
  | AddMember datetime pystr "pystr option" "pystr option"
  | BorrowBook datetime int int int
  | ReturnBook datetime datetime datetime int
  | DeleteBook int
  | DeleteMember int

fun step :: "op \<Rightarrow> store \<Rightarrow> store" where
  "step (AddBook d t a i c) s = snd (add_book d t a i c s)"
| "step (AddMember d n e p) s = snd (add_member d n e p s)"
| "step (BorrowBook d b m k) s = snd (borrow_book d b m k s)"
| "step (ReturnBook d n1 n2 l) s = snd (return_book d n1 n2 l s)"
| "step (DeleteBook b) s = snd (delete_book b s)"
| "step (DeleteMember m) s = snd (delete_member m s)"

fun run :: "op list \<Rightarrow> store \<Rightarrow> store" where
  "run [] s = s"
| "run (x # xs) s = run xs (step x s)"

section \<open>Notions used to state the properties\<close>

text \<open>A \<open>str\<close> that can be bound to a statement: UTF-8 has no encoding for a surrogate
  code point.\<close>

definition encodable :: "pystr \<Rightarrow> bool" where
  "encodable t = (\<not> list_ex surrogate t)"

definition encodable_opt :: "pystr option \<Rightarrow> bool" where
  "encodable_opt x = (case x of None \<Rightarrow> True | Some t \<Rightarrow> encodable t)"

text \<open>The columns of a loan row that no statement of the program ever writes after the
  insert (all but \<open>return_date\<close>).\<close>

definition loan_cols :: "loan \<Rightarrow> int \<times> int \<times> int \<times> string \<times> string" where
  "loan_cols l = (l_id l, book_id l, member_id l, loan_date l, due_date l)"

text \<open>The calls the menu can make of \<open>add_book\<close>: \<open>input_int("Total copies: ", 1)\<close>
  passes a count of at least 1; the invariant of the copy counters needs no more than a
  count that is not negative.\<close>

fun copies_nonneg :: "op \<Rightarrow> bool" where
  "copies_nonneg (AddBook d t a i c) = (0 \<le> c)"
| "copies_nonneg (AddMember d n e p) = True"
| "copies_nonneg (BorrowBook d b m k) = True"
| "copies_nonneg (ReturnBook d n1 n2 l) = True"
| "copies_nonneg (DeleteBook b) = True"
| "copies_nonneg (DeleteMember m) = True"

text \<open>The number of unreturned loans of a book, and the invariant of the stores the
  program produces: primary keys are unique, loan ids fit 64 bits, books and the book
  references of loans were handed out by the books sequence, and every book has
  \<open>copies_total\<close> within 64 bits and as many copies available as it has copies in
  total less its unreturned loans. On such a store \<open>copies_available - 1\<close> (taken when
  the count is positive) and \<open>copies_available + 1\<close> (taken when a loan is unreturned)
  stay within SQLite's integers. \<open>copies_ok\<close> says that no counter is negative.\<close>

definition outstanding :: "int \<Rightarrow> loan list \<Rightarrow> nat" where
  "outstanding b ls = length (filter (\<lambda>l. book_id l = b \<and> return_date l = None) ls)"

definition store_inv :: "store \<Rightarrow> bool" where
  "store_inv s \<longleftrightarrow>
     distinct (map l_id (loans s)) \<and> distinct (map b_id (books s))
     \<and> (\<forall>r\<in>set (books s). b_id r \<le> seq_books s)
     \<and> (\<forall>l\<in>set (loans s). book_id l \<le> seq_books s \<and> int64 (l_id l))
     \<and> (\<forall>r\<in>set (books s). int64 (copies_total r)
            \<and> copies_available r + int (outstanding (b_id r) (loans s)) = copies_total r)"

definition copies_ok :: "store \<Rightarrow> bool" where
  "copies_ok s \<longleftrightarrow> (\<forall>r\<in>set (books s). 0 \<le> copies_available r)"

section \<open>Facts about the store primitives\<close>

subsection \<open>Row ids and bound parameters\<close>

lemma fold_max_ge_init: "(a::int) \<le> fold max ids a"
proof (induction ids arbitrary: a)
  case Nil
  show ?case by simp
next
  case (Cons x xs)
  have "a \<le> max x a" by simp
  also have "max x a \<le> fold max xs (max x a)" by (rule Cons.IH)
  finally show ?case by simp
qed

lemma fold_max_ge_elem: "x \<in> set ids \<Longrightarrow> (x::int) \<le> fold max ids a"
proof (induction ids arbitrary: a)
  case Nil
  then show ?case by simp
next
  case (Cons y ys)
  show ?case
  proof (cases "x = y")
    case True
    have "x \<le> max y a" using True by simp
    also have "max y a \<le> fold max ys (max y a)" by (rule fold_max_ge_init)
    finally show ?thesis by simp
  next
    case False
    with Cons.prems have "x \<in> set ys" by simp
    then show ?thesis using Cons.IH by simp
  qed
qed

lemma autoincrement_Inr:
  assumes "autoincrement seq ids = Inr k"
  shows "seq < k" and "\<forall>x\<in>set ids. x < k" and "0 < k" and "int64 k"
proof -
  let ?m = "max seq (fold max ids 0)"
  from assms have k: "k = ?m + 1" and lim: "?m < 9223372036854775807"
    by (auto simp: autoincrement_def Let_def split: if_splits)
  show "seq < k" using k by simp
  show "\<forall>x\<in>set ids. x < k"
  proof
    fix x assume "x \<in> set ids"
    then have "x \<le> fold max ids 0" by (rule fold_max_ge_elem)
    then show "x < k" using k by simp
  qed
  have "0 \<le> fold max ids 0" by (rule fold_max_ge_init)
  then show "0 < k" using k by simp
  then show "int64 k" using k lim by (simp add: int64_def)
qed

lemma autoincrement_fresh: "autoincrement seq ids = Inr k \<Longrightarrow> k \<notin> set ids"
  using autoincrement_Inr(2) by blast

lemma bind_params_Cons:
  "bind_params (p # ps) = (case p of None \<Rightarrow> bind_params ps | Some e \<Rightarrow> Some e)"
  by (cases p) simp_all

lemma int_param_None [simp]: "(int_param x = None) = int64 x"
  by (simp add: int_param_def)

lemma int_param_Some [simp]: "(int_param x = Some e) = (\<not> int64 x \<and> e = OverflowError)"
  by (auto simp: int_param_def)

lemma text_param_None [simp]: "(text_param t = None) = encodable t"
  by (simp add: text_param_def encodable_def)

lemma bind_int1 [simp]:
  "bind_params [int_param x] = (if int64 x then None else Some OverflowError)"
  by (simp add: int_param_def)

lemma bind_int2 [simp]:
  "bind_params [int_param x, int_param y] =
     (if int64 x \<and> int64 y then None else Some OverflowError)"
  by (simp add: int_param_def)

lemma text_param_enc: "encodable t \<Longrightarrow> text_param t = None"
  by simp

lemma int_param_ok: "int64 x \<Longrightarrow> int_param x = None"
  by simp

subsection \<open>Evaluation at concrete inputs\<close>

lemma digit_char_simps:
  "digit_char 0 = CHR ''0''" "digit_char 1 = CHR ''1''" "digit_char 2 = CHR ''2''"
  "digit_char 3 = CHR ''3''" "digit_char 4 = CHR ''4''" "digit_char 5 = CHR ''5''"
  "digit_char 6 = CHR ''6''" "digit_char 7 = CHR ''7''" "digit_char 8 = CHR ''8''"
  "digit_char 9 = CHR ''9''"
  by (simp_all add: digit_char_def char_of_eq_iff)

lemmas store_defs =
  add_book_def insert_book_def add_member_def insert_member_def borrow_book_def
  insert_loan_def return_book_def delete_book_def delete_member_def delete_from_books_def
  delete_from_members_def update_copies_available_def update_return_date_def
  select_book_def select_loan_def count_active_book_def count_active_member_def
  list_overdue_def strip_if_def strip_def isspace_def int_param_def text_param_def
  opt_text_param_def surrogate_def int64_def
  init_db_def empty_store_def get_conn_def autoincrement_def py_def Let_def
  today_def parse_date_def strftime_def fmt_Y_def fmt_2_def digit_char_simps
  ord_char_def is_digit_def is_digit19_def digit_val_def is_leap_def days_in_month_def
  days_before_month_def days_before_year_def toordinal_def fromordinal_def timedelta_def
  datetime_add_def date_gt_def date_diff_days_def valid_date_def
  encodable_def encodable_opt_def

subsection \<open>What each operation can do to the store\<close>

lemma add_book_result:
  "add_book c t a i n s = (res, s') \<Longrightarrow>
     (s' = s \<and> (\<exists>e. res = Inl e))
     \<or> (\<exists>k. res = Inr k \<and> autoincrement (seq_books s) (map b_id (books s)) = Inr k
            \<and> int64 n
            \<and> s' = s\<lparr>books := books s @
                     [\<lparr>b_id = k, title = strip t, author = strip a, isbn = strip_if i,
                       copies_total = n, copies_available = n, created_at = today c\<rparr>],
                   seq_books := k\<rparr>)"
  by (auto simp: add_book_def insert_book_def bind_params_Cons Let_def
      split: option.splits sum.splits if_splits)

lemma add_member_result:
  "add_member c n e p s = (res, s') \<Longrightarrow>
     (s' = s \<and> (\<exists>err. res = Inl err))
     \<or> (\<exists>k. res = Inr k \<and> autoincrement (seq_members s) (map m_id (members s)) = Inr k
            \<and> s' = s\<lparr>members := members s @
                     [\<lparr>m_id = k, name = strip n, email = strip_if e, phone = strip_if p,
                       joined_at = today c\<rparr>],
                   seq_members := k\<rparr>)"
  by (auto simp: add_member_def insert_member_def bind_params_Cons Let_def
      split: option.splits sum.splits if_splits)

lemma borrow_book_result:
  "borrow_book c b m k s = (res, s') \<Longrightarrow>
     s' = s \<and> (\<forall>due lid. res \<noteq> Inr (Loan_created due, Some lid))
     \<or> (\<exists>bk lid dt due_dt. res = Inr (Loan_created (strftime due_dt), Some lid)
            \<and> int64 b \<and> int64 m
            \<and> find (\<lambda>r. b_id r = b) (books s) = Some bk \<and> 0 < copies_available bk
            \<and> parse_date (today c) = Inr dt \<and> datetime_add dt k = Inr due_dt
            \<and> autoincrement (seq_loans s) (map l_id (loans s)) = Inr lid
            \<and> s' = s\<lparr>books := map (\<lambda>r. if b_id r = b
                                 then r\<lparr>copies_available := copies_available r - 1\<rparr> else r)
                               (books s),
                     loans := loans s @
                       [\<lparr>l_id = lid, book_id = b, member_id = m, loan_date = today c,
                         due_date = strftime due_dt, return_date = None\<rparr>],
                     seq_loans := lid\<rparr>)"
  by (auto simp: borrow_book_def select_book_def insert_loan_def get_conn_def timedelta_def
      update_copies_available_def Let_def
      split: option.splits sum.splits if_splits)

lemma return_book_result:
  "return_book c n1 n2 l s = (res, s') \<Longrightarrow>
     s' = s \<and> res \<noteq> Inr Returned_on_time \<and> (\<forall>n. res \<noteq> Inr (Returned_late n))
     \<or> (\<exists>ln due. (res = Inr Returned_on_time \<or> res = Inr (Returned_late (date_diff_days n2 due)))
            \<and> int64 l
            \<and> find (\<lambda>r. l_id r = l) (loans s) = Some ln \<and> return_date ln = None
            \<and> parse_date (due_date ln) = Inr due
            \<and> s' = s\<lparr>loans := map (\<lambda>r. if l_id r = l then r\<lparr>return_date := Some (today c)\<rparr>
                                         else r) (loans s),
                     books := map (\<lambda>r. if b_id r = book_id ln
                                 then r\<lparr>copies_available := copies_available r + 1\<rparr> else r)
                               (books s)\<rparr>)"
  by (auto simp: return_book_def select_loan_def update_return_date_def
      update_copies_available_def Let_def
      split: option.splits sum.splits if_splits)

lemma delete_book_result:
  "delete_book b s = (res, s') \<Longrightarrow>
     s' = s \<or> s' = s\<lparr>books := filter (\<lambda>r. b_id r \<noteq> b) (books s)\<rparr>"
  by (auto simp: delete_book_def count_active_book_def delete_from_books_def get_conn_def
      Let_def split: if_splits)

lemma delete_member_result:
  "delete_member m s = (res, s') \<Longrightarrow>
     s' = s \<or> s' = s\<lparr>members := filter (\<lambda>r. m_id r \<noteq> m) (members s)\<rparr>"
  by (auto simp: delete_member_def count_active_member_def delete_from_members_def get_conn_def
      Let_def split: if_splits)

subsection \<open>Looking rows up\<close>



lemma find_unique:
  "distinct (map f xs) \<Longrightarrow> find (\<lambda>r. f r = k) xs = Some y \<Longrightarrow> r \<in> set xs \<Longrightarrow> f r = k
     \<Longrightarrow> r = y"
proof -
  assume d: "distinct (map f xs)" and fd: "find (\<lambda>r. f r = k) xs = Some y"
    and r: "r \<in> set xs" and k: "f r = k"
  from fd have "y \<in> set xs" and "f y = k"
    by (auto simp: find_Some_iff)
  with d r k show "r = y" by (auto simp: distinct_map dest: inj_onD)
qed

lemma loans_update_copies [simp]: "loans (update_copies_available b k s) = loans s"
  by (simp add: update_copies_available_def)

lemma books_update_return [simp]: "books (update_return_date d l s) = books s"
  by (simp add: update_return_date_def)


subsection \<open>The invariant is kept by every operation\<close>

lemma outstanding_none: "\<forall>l\<in>set ls. book_id l \<noteq> b \<Longrightarrow> outstanding b ls = 0"
  by (simp add: outstanding_def)

lemma outstanding_snoc:
  "outstanding b (ls @ [l]) =
     outstanding b ls + (if book_id l = b \<and> return_date l = None then 1 else 0)"
  by (simp add: outstanding_def)

lemma outstanding_stamp_other:
  "\<forall>x\<in>set ls. l_id x \<noteq> l \<Longrightarrow>
     map (\<lambda>r. if l_id r = l then r\<lparr>return_date := Some d\<rparr> else r) ls = ls"
  by (simp add: map_idI)

lemma outstanding_Cons:
  "outstanding b (x # xs) =
     (if book_id x = b \<and> return_date x = None then 1 else 0) + outstanding b xs"
  by (simp add: outstanding_def)

lemma distinct_map_Cons_neq: "distinct (map f (x # xs)) \<Longrightarrow> y \<in> set xs \<Longrightarrow> f y \<noteq> f x"
  by (metis distinct.simps(2) image_eqI list.simps(9) list.set_map)

lemma outstanding_stamp:
  "distinct (map l_id ls) \<Longrightarrow> ln \<in> set ls \<Longrightarrow> return_date ln = None \<Longrightarrow>
     outstanding b (map (\<lambda>r. if l_id r = l_id ln then r\<lparr>return_date := Some d\<rparr> else r) ls)
       + (if book_id ln = b then 1 else 0) = outstanding b ls"
proof (induction ls)
  case Nil
  then show ?case by simp
next
  case (Cons x xs)
  show ?case
  proof (cases "x = ln")
    case True
    with Cons.prems have "\<forall>y\<in>set xs. l_id y \<noteq> l_id ln"
      using distinct_map_Cons_neq [of l_id x xs] by blast
    then have "map (\<lambda>r. if l_id r = l_id ln then r\<lparr>return_date := Some d\<rparr> else r) xs = xs"
      by (rule outstanding_stamp_other)
    with True Cons.prems show ?thesis by (simp add: outstanding_Cons)
  next
    case False
    with Cons.prems have in_xs: "ln \<in> set xs" by simp
    with Cons.prems have "l_id x \<noteq> l_id ln"
      using distinct_map_Cons_neq [of l_id x xs ln] by simp
    moreover have "outstanding b (map (\<lambda>r. if l_id r = l_id ln then r\<lparr>return_date := Some d\<rparr> else r) xs)
       + (if book_id ln = b then 1 else 0) = outstanding b xs"
      using Cons.IH Cons.prems in_xs by simp
    ultimately show ?thesis by (simp add: outstanding_Cons)
  qed
qed

lemma store_invI:
  "books s = bs \<Longrightarrow> loans s = ls \<Longrightarrow> seq_books s = q \<Longrightarrow>
   distinct (map l_id ls) \<Longrightarrow> distinct (map b_id bs) \<Longrightarrow>
   \<forall>r\<in>set bs. b_id r \<le> q \<Longrightarrow> \<forall>l\<in>set ls. book_id l \<le> q \<and> int64 (l_id l) \<Longrightarrow>
   \<forall>r\<in>set bs. int64 (copies_total r)
        \<and> copies_available r + int (outstanding (b_id r) ls) = copies_total r \<Longrightarrow>
   store_inv s"
  by (simp add: store_inv_def)

lemma inv_empty: "store_inv empty_store"
  by (simp add: store_inv_def empty_store_def)

lemma inv_add_book:
  assumes "store_inv s"
  shows "store_inv (snd (add_book d t a i c s))"
proof -
  obtain res s' where r: "add_book d t a i c s = (res, s')" by (cases "add_book d t a i c s")
  from add_book_result [OF r] show ?thesis
  proof
    assume "s' = s \<and> (\<exists>e. res = Inl e)"
    with r assms show ?thesis by simp
  next
    assume "\<exists>k. res = Inr k \<and> autoincrement (seq_books s) (map b_id (books s)) = Inr k
            \<and> int64 c
            \<and> s' = s\<lparr>books := books s @
                     [\<lparr>b_id = k, title = strip t, author = strip a, isbn = strip_if i,
                       copies_total = c, copies_available = c, created_at = today d\<rparr>],
                   seq_books := k\<rparr>"
    then obtain k where ai: "autoincrement (seq_books s) (map b_id (books s)) = Inr k"
      and c64: "int64 c"
      and s': "s' = s\<lparr>books := books s @
                     [\<lparr>b_id = k, title = strip t, author = strip a, isbn = strip_if i,
                       copies_total = c, copies_available = c, created_at = today d\<rparr>],
                   seq_books := k\<rparr>" by blast
    have gt: "\<forall>r\<in>set (books s). b_id r < k"
      using autoincrement_Inr(2) [OF ai] by simp
    have gs: "seq_books s < k" by (rule autoincrement_Inr(1) [OF ai])
    have lk: "\<forall>l\<in>set (loans s). book_id l \<noteq> k"
      using assms gs by (fastforce simp: store_inv_def)
    have o: "outstanding k (loans s) = 0" using lk by (rule outstanding_none)
    have nk: "k \<notin> b_id ` set (books s)" using gt by fastforce
    have le: "\<forall>l\<in>set (loans s). book_id l \<le> k"
      using assms gs by (fastforce simp: store_inv_def)
    have "store_inv s'"
      unfolding s' using assms gt o nk le c64
      by (auto simp: store_inv_def dest: order.strict_implies_order)
    with r show ?thesis by simp
  qed
qed

lemma inv_add_member:
  assumes "store_inv s"
  shows "store_inv (snd (add_member d n e p s))"
proof -
  obtain res s' where r: "add_member d n e p s = (res, s')" by (cases "add_member d n e p s")
  from add_member_result [OF r] assms have "store_inv s'"
    by (auto simp: store_inv_def)
  with r show ?thesis by simp
qed

lemma inv_delete_book:
  assumes "store_inv s"
  shows "store_inv (snd (delete_book b s))"
proof -
  obtain res s' where r: "delete_book b s = (res, s')" by (cases "delete_book b s")
  from delete_book_result [OF r] assms have "store_inv s'"
    by (auto simp: store_inv_def distinct_map_filter)
  with r show ?thesis by simp
qed

lemma inv_delete_member:
  assumes "store_inv s"
  shows "store_inv (snd (delete_member m s))"
proof -
  obtain res s' where r: "delete_member m s = (res, s')" by (cases "delete_member m s")
  from delete_member_result [OF r] assms have "store_inv s'"
    by (auto simp: store_inv_def)
  with r show ?thesis by simp
qed

lemma inv_borrow_book:
  assumes "store_inv s"
  shows "store_inv (snd (borrow_book d b m k s))"
proof -
  obtain res s' where r: "borrow_book d b m k s = (res, s')" by (cases "borrow_book d b m k s")
  let ?dec = "\<lambda>r. if b_id r = b then r\<lparr>copies_available := copies_available r - 1\<rparr> else r"
  from borrow_book_result [OF r] have "store_inv s'"
  proof
    assume "s' = s \<and> (\<forall>due lid. res \<noteq> Inr (Loan_created due, Some lid))"
    with assms show ?thesis by simp
  next
    assume "\<exists>bk lid dt due_dt. res = Inr (Loan_created (strftime due_dt), Some lid)
            \<and> int64 b \<and> int64 m
            \<and> find (\<lambda>r. b_id r = b) (books s) = Some bk \<and> 0 < copies_available bk
            \<and> parse_date (today d) = Inr dt \<and> datetime_add dt k = Inr due_dt
            \<and> autoincrement (seq_loans s) (map l_id (loans s)) = Inr lid
            \<and> s' = s\<lparr>books := map ?dec (books s),
                     loans := loans s @
                       [\<lparr>l_id = lid, book_id = b, member_id = m, loan_date = today d,
                         due_date = strftime due_dt, return_date = None\<rparr>],
                     seq_loans := lid\<rparr>"
    then obtain bk lid due_dt where bk: "find (\<lambda>r. b_id r = b) (books s) = Some bk"
      and ai: "autoincrement (seq_loans s) (map l_id (loans s)) = Inr lid"
      and s': "s' = s\<lparr>books := map ?dec (books s),
                     loans := loans s @
                       [\<lparr>l_id = lid, book_id = b, member_id = m, loan_date = today d,
                         due_date = strftime due_dt, return_date = None\<rparr>],
                     seq_loans := lid\<rparr>" by blast
    let ?new = "\<lparr>l_id = lid, book_id = b, member_id = m, loan_date = today d,
                 due_date = strftime due_dt, return_date = None\<rparr>"
    from bk have bk_in: "bk \<in> set (books s)" and bk_id: "b_id bk = b"
      by (auto simp: find_Some_iff)
    have fresh: "lid \<notin> l_id ` set (loans s)"
      using autoincrement_Inr(2) [OF ai] by fastforce
    have l64: "int64 lid" by (rule autoincrement_Inr(4) [OF ai])
    have ids: "map b_id (map ?dec (books s)) = map b_id (books s)"
      by (induction "books s") simp_all
    have b_le: "b \<le> seq_books s"
      using assms bk_in bk_id by (auto simp: store_inv_def)
    have rows: "\<forall>r\<in>set (map ?dec (books s)). int64 (copies_total r)
        \<and> copies_available r + int (outstanding (b_id r) (loans s @ [?new])) = copies_total r"
    proof
      fix r assume "r \<in> set (map ?dec (books s))"
      then obtain r0 where r0: "r0 \<in> set (books s)" and r: "r = ?dec r0" by auto
      from assms r0 have i0: "int64 (copies_total r0)"
        "copies_available r0 + int (outstanding (b_id r0) (loans s)) = copies_total r0"
        by (auto simp: store_inv_def)
      show "int64 (copies_total r)
        \<and> copies_available r + int (outstanding (b_id r) (loans s @ [?new])) = copies_total r"
        using i0 r by (cases "b_id r0 = b") (simp_all add: outstanding_snoc)
    qed
    have bset: "\<forall>r\<in>set (map ?dec (books s)). b_id r \<le> seq_books s"
      using assms by (auto simp: store_inv_def)
    have d1: "distinct (map l_id (loans s @ [?new]))"
      using assms fresh by (simp add: store_inv_def)
    have d2: "distinct (map b_id (map ?dec (books s)))"
      unfolding ids using assms by (simp add: store_inv_def)
    have l_le: "\<forall>l\<in>set (loans s @ [?new]). book_id l \<le> seq_books s \<and> int64 (l_id l)"
      using assms b_le l64 by (simp add: store_inv_def)
    show ?thesis
      unfolding s'
      by (rule store_invI [OF _ _ _ d1 d2 bset l_le rows]) simp_all
  qed
  with r show ?thesis by simp
qed

lemma inv_return_book:
  assumes "store_inv s"
  shows "store_inv (snd (return_book d n1 n2 l s))"
proof -
  obtain res s' where r: "return_book d n1 n2 l s = (res, s')"
    by (cases "return_book d n1 n2 l s")
  let ?stamp = "\<lambda>r. if l_id r = l then r\<lparr>return_date := Some (today d)\<rparr> else r"
  from return_book_result [OF r] have "store_inv s'"
  proof
    assume "s' = s \<and> res \<noteq> Inr Returned_on_time \<and> (\<forall>n. res \<noteq> Inr (Returned_late n))"
    with assms show ?thesis by simp
  next
    assume "\<exists>ln due. (res = Inr Returned_on_time \<or> res = Inr (Returned_late (date_diff_days n2 due)))
            \<and> int64 l
            \<and> find (\<lambda>r. l_id r = l) (loans s) = Some ln \<and> return_date ln = None
            \<and> parse_date (due_date ln) = Inr due
            \<and> s' = s\<lparr>loans := map ?stamp (loans s),
                     books := map (\<lambda>r. if b_id r = book_id ln
                                 then r\<lparr>copies_available := copies_available r + 1\<rparr> else r)
                               (books s)\<rparr>"
    then obtain ln where Some: "find (\<lambda>r. l_id r = l) (loans s) = Some ln"
      and True: "return_date ln = None"
      and s': "s' = s\<lparr>loans := map ?stamp (loans s),
                     books := map (\<lambda>r. if b_id r = book_id ln
                                 then r\<lparr>copies_available := copies_available r + 1\<rparr> else r)
                               (books s)\<rparr>" by blast
    let ?inc = "\<lambda>r. if b_id r = book_id ln
                     then r\<lparr>copies_available := copies_available r + 1\<rparr> else r"
    from Some have ln_in: "ln \<in> set (loans s)" and ln_id: "l_id ln = l"
      by (auto simp: find_Some_iff)
    have dl: "distinct (map l_id (loans s))" using assms by (simp add: store_inv_def)
    have cnt: "\<And>b. outstanding b (map ?stamp (loans s)) + (if book_id ln = b then 1 else 0)
                  = outstanding b (loans s)"
      using outstanding_stamp [OF dl ln_in True] ln_id by simp
    have lids: "map l_id (map ?stamp (loans s)) = map l_id (loans s)"
      by (induction "loans s") simp_all
    have bids: "map b_id (map ?inc (books s)) = map b_id (books s)"
      by (induction "books s") simp_all
    have d1: "distinct (map l_id (map ?stamp (loans s)))"
      unfolding lids by (rule dl)
    have d2: "distinct (map b_id (map ?inc (books s)))"
      unfolding bids using assms by (simp add: store_inv_def)
    have bset: "\<forall>r\<in>set (map ?inc (books s)). b_id r \<le> seq_books s"
      using assms by (auto simp: store_inv_def)
    have l_le: "\<forall>x\<in>set (map ?stamp (loans s)). book_id x \<le> seq_books s \<and> int64 (l_id x)"
      using assms by (auto simp: store_inv_def)
    have rows: "\<forall>r\<in>set (map ?inc (books s)). int64 (copies_total r)
        \<and> copies_available r + int (outstanding (b_id r) (map ?stamp (loans s)))
            = copies_total r"
    proof
      fix r assume "r \<in> set (map ?inc (books s))"
      then obtain r0 where r0: "r0 \<in> set (books s)" and r: "r = ?inc r0" by auto
      from assms r0 have i0: "int64 (copies_total r0)"
        "copies_available r0 + int (outstanding (b_id r0) (loans s)) = copies_total r0"
        by (auto simp: store_inv_def)
      from cnt [of "b_id r0"] i0 r
      show "int64 (copies_total r)
        \<and> copies_available r + int (outstanding (b_id r) (map ?stamp (loans s)))
            = copies_total r"
        by (cases "b_id r0 = book_id ln") auto
    qed
    show ?thesis
      unfolding s'
      by (rule store_invI [OF _ _ _ d1 d2 bset l_le rows]) simp_all
  qed
  with r show ?thesis by simp
qed

lemma inv_step: "store_inv s \<Longrightarrow> store_inv (step x s)"
  by (cases x)
    (simp_all add: inv_add_book inv_add_member inv_borrow_book inv_return_book inv_delete_book
      inv_delete_member)

lemma inv_run: "store_inv s \<Longrightarrow> store_inv (run xs s)"
  by (induction xs arbitrary: s) (simp_all add: inv_step)


lemma ok_step:
  assumes "store_inv s" and "copies_ok s" and "copies_nonneg x"
  shows "copies_ok (step x s)"
proof (cases x)
  case (AddBook d t a i c)
  obtain res s' where r: "add_book d t a i c s = (res, s')" by (cases "add_book d t a i c s")
  from add_book_result [OF r] assms AddBook have "copies_ok s'"
    by (auto simp: copies_ok_def)
  with r AddBook show ?thesis by simp
next
  case (AddMember d n e p)
  obtain res s' where r: "add_member d n e p s = (res, s')" by (cases "add_member d n e p s")
  from add_member_result [OF r] assms have "copies_ok s'"
    by (auto simp: copies_ok_def)
  with r AddMember show ?thesis by simp
next
  case (BorrowBook d b m k)
  obtain res s' where r: "borrow_book d b m k s = (res, s')" by (cases "borrow_book d b m k s")
  from borrow_book_result [OF r] have "copies_ok s'"
  proof
    assume "s' = s \<and> (\<forall>due lid. res \<noteq> Inr (Loan_created due, Some lid))"
    with assms show ?thesis by simp
  next
    assume "\<exists>bk lid dt due_dt. res = Inr (Loan_created (strftime due_dt), Some lid)
            \<and> int64 b \<and> int64 m
            \<and> find (\<lambda>r. b_id r = b) (books s) = Some bk \<and> 0 < copies_available bk
            \<and> parse_date (today d) = Inr dt \<and> datetime_add dt k = Inr due_dt
            \<and> autoincrement (seq_loans s) (map l_id (loans s)) = Inr lid
            \<and> s' = s\<lparr>books := map (\<lambda>r. if b_id r = b
                                 then r\<lparr>copies_available := copies_available r - 1\<rparr> else r)
                               (books s),
                     loans := loans s @
                       [\<lparr>l_id = lid, book_id = b, member_id = m, loan_date = today d,
                         due_date = strftime due_dt, return_date = None\<rparr>],
                     seq_loans := lid\<rparr>"
    then obtain bk where bk: "find (\<lambda>r. b_id r = b) (books s) = Some bk"
      and pos: "0 < copies_available bk"
      and bs: "books s' = map (\<lambda>r. if b_id r = b
                                 then r\<lparr>copies_available := copies_available r - 1\<rparr> else r)
                               (books s)" by auto
    have uniq: "\<And>r. r \<in> set (books s) \<Longrightarrow> b_id r = b \<Longrightarrow> r = bk"
      using find_unique [OF _ bk] assms(1) by (simp add: store_inv_def)
    show ?thesis
      unfolding copies_ok_def bs using assms(2) pos uniq
      by (auto simp: copies_ok_def)
  qed
  with r BorrowBook show ?thesis by simp
next
  case (ReturnBook d n1 n2 l)
  obtain res s' where r: "return_book d n1 n2 l s = (res, s')"
    by (cases "return_book d n1 n2 l s")
  from return_book_result [OF r] assms have "copies_ok s'"
    by (auto simp: copies_ok_def)
  with r ReturnBook show ?thesis by simp
next
  case (DeleteBook b)
  obtain res s' where r: "delete_book b s = (res, s')" by (cases "delete_book b s")
  from delete_book_result [OF r] assms have "copies_ok s'"
    by (auto simp: copies_ok_def)
  with r DeleteBook show ?thesis by simp
next
  case (DeleteMember m)
  obtain res s' where r: "delete_member m s = (res, s')" by (cases "delete_member m s")
  from delete_member_result [OF r] assms have "copies_ok s'"
    by (auto simp: copies_ok_def)
  with r DeleteMember show ?thesis by simp
qed

lemma ok_run:
  "store_inv s \<Longrightarrow> copies_ok s \<Longrightarrow> \<forall>x\<in>set xs. copies_nonneg x \<Longrightarrow> copies_ok (run xs s)"
  by (induction xs arbitrary: s) (simp_all add: inv_step ok_step)

lemma inv_bounds:
  "store_inv s \<Longrightarrow> copies_ok s \<Longrightarrow> r \<in> set (books s) \<Longrightarrow>
     0 \<le> copies_available r \<and> copies_available r \<le> copies_total r"
  by (fastforce simp: store_inv_def copies_ok_def)


subsection \<open>Loan rows are only appended or stamped\<close>

lemma step_keeps_loans:
  "\<exists>ys. map loan_cols (loans (step x s)) = map loan_cols (loans s) @ ys"
proof (cases x)
  case (AddBook d t a i c)
  obtain res s' where r: "add_book d t a i c s = (res, s')" by (cases "add_book d t a i c s")
  from add_book_result [OF r] have "loans s' = loans s" by auto
  with r AddBook show ?thesis by simp
next
  case (AddMember d n e p)
  obtain res s' where r: "add_member d n e p s = (res, s')" by (cases "add_member d n e p s")
  from add_member_result [OF r] have "loans s' = loans s" by auto
  with r AddMember show ?thesis by simp
next
  case (BorrowBook d b m k)
  obtain res s' where r: "borrow_book d b m k s = (res, s')" by (cases "borrow_book d b m k s")
  from borrow_book_result [OF r] have "\<exists>ys. loans s' = loans s @ ys" by auto
  with r BorrowBook show ?thesis by auto
next
  case (ReturnBook d n1 n2 l)
  obtain res s' where r: "return_book d n1 n2 l s = (res, s')"
    by (cases "return_book d n1 n2 l s")
  from return_book_result [OF r] have "map loan_cols (loans s') = map loan_cols (loans s)"
    by (auto simp: loan_cols_def comp_def)
  with r ReturnBook show ?thesis by simp
next
  case (DeleteBook b)
  obtain res s' where r: "delete_book b s = (res, s')" by (cases "delete_book b s")
  from delete_book_result [OF r] have "loans s' = loans s" by auto
  with r DeleteBook show ?thesis by simp
next
  case (DeleteMember m)
  obtain res s' where r: "delete_member m s = (res, s')" by (cases "delete_member m s")
  from delete_member_result [OF r] have "loans s' = loans s" by auto
  with r DeleteMember show ?thesis by simp
qed

lemma run_keeps_loans:
  "prefix (map loan_cols (loans s)) (map loan_cols (loans (run xs s)))"
proof (induction xs arbitrary: s)
  case Nil
  show ?case by simp
next
  case (Cons x xs)
  from step_keeps_loans [of x s]
  have "prefix (map loan_cols (loans s)) (map loan_cols (loans (step x s)))"
    by (auto simp: prefix_def)
  also have "prefix \<dots> (map loan_cols (loans (run xs (step x s))))" by (rule Cons.IH)
  finally show ?case by simp
qed

subsection \<open>A date with a four-digit year is parsed back\<close>

lemma ord_digit_char: "0 \<le> d \<Longrightarrow> d \<le> 9 \<Longrightarrow> ord_char (digit_char d) = 48 + d"
  by (simp add: ord_char_def digit_char_def)

lemma thousands_digit: "1000 \<le> (y::int) \<Longrightarrow> y \<le> 9999 \<Longrightarrow> 0 \<le> y div 1000 \<and> y div 1000 \<le> 9"
  by auto

lemma mod_10_range: "0 \<le> (y::int) mod 10 \<and> y mod 10 \<le> 9"
  by auto

lemma decimal_expansion: "1000 * ((y::int) div 1000) + 100 * (y div 100 mod 10) + 10 * (y div 10 mod 10) + y mod 10 = y"
proof -
  have a: "y div 10 div 10 = y div 100" "y div 100 div 10 = y div 1000"
    by (simp_all add: div_mult2_eq [symmetric])
  have "y = 10 * (y div 10) + y mod 10" by simp
  also have "y div 10 = 10 * (y div 10 div 10) + y div 10 mod 10" by simp
  also have "y div 10 div 10 = 10 * (y div 10 div 10 div 10) + y div 10 div 10 mod 10" by simp
  finally show ?thesis using a by simp
qed

lemma dm_lt10: "0 \<le> (m::int) \<Longrightarrow> m < 10 \<Longrightarrow> m div 10 = 0 \<and> m mod 10 = m"
  by simp

lemma dm_shift: "10 * k \<le> (m::int) \<Longrightarrow> m < 10 * k + 10 \<Longrightarrow> m div 10 = k \<and> m mod 10 = m - 10 * k"
proof -
  assume a: "10 * k \<le> m" "m < 10 * k + 10"
  have "m = (m - 10 * k) + k * 10" by simp
  then have "m div 10 = (m - 10 * k) div 10 + k" and "m mod 10 = (m - 10 * k) mod 10"
    by (metis div_mult_self1 zero_neq_numeral add.commute div_mult_self3, metis mod_mult_self1 add.commute mod_mult_self3)
  with a show ?thesis by simp
qed

lemma match_m_fmt_2:
  assumes "1 \<le> m" and "m \<le> 12"
  shows "match_m (fmt_2 m @ CHR ''-'' # r) = Some (m, r)"
proof (cases "m < 10")
  case True
  with assms have d: "m div 10 = 0" "m mod 10 = m" using dm_lt10 [of m] by simp_all
  have o: "ord_char (digit_char 0) = 48" "ord_char (digit_char m) = 48 + m"
    "ord_char CHR ''-'' = 45"
    using assms True by (simp_all add: ord_digit_char) (simp add: ord_char_def)
  show ?thesis
    using assms True
    by (simp add: fmt_2_def d o is_digit19_def digit_val_def)
next
  case False
  with assms have d: "m div 10 = 1" "m mod 10 = m - 10" using dm_shift [of 1 m] by simp_all
  have o: "ord_char (digit_char 1) = 49" "ord_char (digit_char (m - 10)) = 48 + (m - 10)"
    "ord_char CHR ''-'' = 45"
    using assms False by (simp_all add: ord_digit_char) (simp add: ord_char_def)
  show ?thesis
    using assms False
    by (simp add: fmt_2_def d o is_digit19_def digit_val_def)
qed

lemma match_d_fmt_2:
  assumes "1 \<le> d" and "d \<le> 31"
  shows "match_d (fmt_2 d) = Some (d, [])"
proof -
  consider "d < 10" | "10 \<le> d \<and> d < 20" | "20 \<le> d \<and> d < 30" | "30 \<le> d"
    by linarith
  then show ?thesis
  proof cases
    case 1
    with assms have e: "d div 10 = 0" "d mod 10 = d" using dm_lt10 [of d] by simp_all
    have o: "ord_char (digit_char 0) = 48" "ord_char (digit_char d) = 48 + d"
      using assms 1 by (simp_all add: ord_digit_char)
    show ?thesis using assms 1
      by (simp add: fmt_2_def e o is_digit19_def is_digit_def digit_val_def)
  next
    case 2
    with assms have e: "d div 10 = 1" "d mod 10 = d - 10" using dm_shift [of 1 d] by simp_all
    have o: "ord_char (digit_char 1) = 49" "ord_char (digit_char (d - 10)) = 48 + (d - 10)"
      using assms 2 by (simp_all add: ord_digit_char)
    show ?thesis using assms 2
      by (simp add: fmt_2_def e o is_digit19_def is_digit_def digit_val_def)
  next
    case 3
    with assms have e: "d div 10 = 2" "d mod 10 = d - 20" using dm_shift [of 2 d] by simp_all
    have o: "ord_char (digit_char 2) = 50" "ord_char (digit_char (d - 20)) = 48 + (d - 20)"
      using assms 3 by (simp_all add: ord_digit_char)
    show ?thesis using assms 3
      by (simp add: fmt_2_def e o is_digit19_def is_digit_def digit_val_def)
  next
    case 4
    with assms have e: "d div 10 = 3" "d mod 10 = d - 30" using dm_shift [of 3 d] by simp_all
    have o: "ord_char (digit_char 3) = 51" "ord_char (digit_char (d - 30)) = 48 + (d - 30)"
      using assms 4 by (simp_all add: ord_digit_char)
    show ?thesis using assms 4
      by (simp add: fmt_2_def e o is_digit19_def is_digit_def digit_val_def)
  qed
qed

lemma days_in_month_le: "days_in_month l m \<le> 31"
  by (simp add: days_in_month_def)

lemma parse_date_strftime:
  assumes "valid_date dt" and "1000 \<le> year dt"
  shows "parse_date (strftime dt) = Inr dt"
proof -
  obtain y m d where dt: "dt = Datetime y m d" by (cases dt)
  from assms dt have y: "1000 \<le> y" "y \<le> 9999" and m: "1 \<le> m" "m \<le> 12"
    and d: "1 \<le> d" "d \<le> days_in_month (is_leap y) m"
    by (simp_all add: valid_date_def)
  from d have d31: "d \<le> 31" using days_in_month_le [of "is_leap y" m] by linarith
  have fy: "fmt_Y y = [digit_char (y div 1000), digit_char (y div 100 mod 10),
            digit_char (y div 10 mod 10), digit_char (y mod 10)]"
    using y by (simp add: fmt_Y_def)
  have r1: "0 \<le> y div 1000 \<and> y div 1000 \<le> 9" using y by (rule thousands_digit)
  have o: "ord_char (digit_char (y div 1000)) = 48 + y div 1000"
    "ord_char (digit_char (y div 100 mod 10)) = 48 + y div 100 mod 10"
    "ord_char (digit_char (y div 10 mod 10)) = 48 + y div 10 mod 10"
    "ord_char (digit_char (y mod 10)) = 48 + y mod 10"
    "ord_char CHR ''-'' = 45"
    using r1 mod_10_range [of y] mod_10_range [of "y div 10"] mod_10_range [of "y div 100"]
    by (simp_all add: ord_digit_char) (simp add: ord_char_def)
  have v: "1000 * (y div 1000) + 100 * (y div 100 mod 10) + 10 * (y div 10 mod 10) + y mod 10 = y"
    by (rule decimal_expansion)
  have dg: "is_digit (digit_char (y div 1000))" "is_digit (digit_char (y div 100 mod 10))"
    "is_digit (digit_char (y div 10 mod 10))" "is_digit (digit_char (y mod 10))"
    using r1 mod_10_range [of y] mod_10_range [of "y div 10"] mod_10_range [of "y div 100"]
    by (simp_all add: is_digit_def o)
  have vals: "digit_val (digit_char (y div 1000)) = y div 1000"
    "digit_val (digit_char (y div 100 mod 10)) = y div 100 mod 10"
    "digit_val (digit_char (y div 10 mod 10)) = y div 10 mod 10"
    "digit_val (digit_char (y mod 10)) = y mod 10"
    by (simp_all add: digit_val_def o)
  have "strptime (digit_char (y div 1000) # digit_char (y div 100 mod 10) #
            digit_char (y div 10 mod 10) # digit_char (y mod 10) # CHR ''-'' #
            (fmt_2 m @ CHR ''-'' # fmt_2 d)) = Inr (Datetime y m d)"
    using y d
    by (simp only: strptime.simps dg o(5) vals v match_m_fmt_2 [OF m]
        match_d_fmt_2 [OF d(1) d31] Let_def)
      (simp add: match_d_fmt_2 [OF d(1) d31])
  then show ?thesis
    by (simp add: parse_date_def strftime_def dt fy)
qed

subsection \<open>Whitespace stripping\<close>

lemma strip_spec:
  "\<exists>pre post. t = pre @ strip t @ post \<and> (\<forall>c\<in>set pre. isspace c) \<and> (\<forall>c\<in>set post. isspace c)
     \<and> (strip t \<noteq> [] \<longrightarrow> \<not> isspace (hd (strip t)) \<and> \<not> isspace (last (strip t)))"
proof -
  let ?u = "dropWhile isspace t"
  let ?v = "dropWhile isspace (rev ?u)"
  have 1: "t = takeWhile isspace t @ ?u" by simp
  have 2: "rev ?u = takeWhile isspace (rev ?u) @ ?v" by simp
  then have 3: "?u = rev ?v @ rev (takeWhile isspace (rev ?u))"
    by (metis rev_append rev_rev_ident)
  have s: "strip t = rev ?v" by (simp add: strip_def)
  have a: "\<forall>c\<in>set (takeWhile isspace t). isspace c" by (auto dest: set_takeWhileD)
  have b: "\<forall>c\<in>set (rev (takeWhile isspace (rev ?u))). isspace c" by (auto dest: set_takeWhileD)
  have c: "strip t \<noteq> [] \<longrightarrow> \<not> isspace (last (strip t))"
    unfolding s by (metis hd_dropWhile last_rev rev_is_Nil_conv)
  have d: "strip t \<noteq> [] \<longrightarrow> \<not> isspace (hd (strip t))"
  proof
    assume ne: "strip t \<noteq> []"
    then have "?u \<noteq> []" unfolding s by (cases "dropWhile isspace t") simp_all
    then have h: "\<not> isspace (hd ?u)" by (rule hd_dropWhile)
    from ne 3 have "hd ?u = hd (rev ?v)" unfolding s by (metis hd_append2)
    with h show "\<not> isspace (hd (strip t))" unfolding s by simp
  qed
  from 1 3 have "t = takeWhile isspace t @ strip t @ rev (takeWhile isspace (rev ?u))"
    unfolding s by metis
  with a b c d show ?thesis by blast
qed

lemma strip_all_space: "list_all isspace t \<Longrightarrow> strip t = []"
proof -
  assume "list_all isspace t"
  then have e: "dropWhile isspace t = []" by (simp add: list_all_iff)
  show ?thesis unfolding strip_def e by simp
qed

lemma set_strip: "set (strip t) \<subseteq> set t"
proof -
  have "set (strip t) = set (dropWhile isspace (rev (dropWhile isspace t)))"
    by (simp add: strip_def)
  also have "\<dots> \<subseteq> set (rev (dropWhile isspace t))" by (auto dest: set_dropWhileD)
  also have "\<dots> \<subseteq> set t" by (auto dest: set_dropWhileD)
  finally show ?thesis .
qed

lemma encodable_strip: "encodable t \<Longrightarrow> encodable (strip t)"
  using set_strip [of t] by (auto simp: encodable_def list_ex_iff)

lemma encodable_strip_if: "encodable_opt i \<Longrightarrow> opt_text_param (strip_if i) = None"
  by (auto simp: encodable_opt_def opt_text_param_def strip_if_def encodable_strip
      split: option.splits)

lemma space_not_surrogate: "isspace c \<Longrightarrow> \<not> surrogate c"
  by (auto simp: isspace_def surrogate_def)

lemma encodable_space: "list_all isspace t \<Longrightarrow> encodable t"
  by (auto simp: encodable_def list_ex_iff list_all_iff space_not_surrogate)

subsection \<open>Returning a loan\<close>



lemma return_book_unparsed:
  assumes "int64 l" and "find (\<lambda>r. l_id r = l) (loans s) = Some ln" and "return_date ln = None"
    and "parse_date (due_date ln) = Inl e"
  shows "return_book c n1 n2 l s = (Inl e, s)"
  using assms by (simp add: return_book_def select_loan_def Let_def)


subsection \<open>What \<open>list_overdue\<close> returns\<close>

lemma list_overdue_set:
  "set (list_overdue clock s) =
     {(l, title b, name m) | l b m.
        l \<in> set (loans s) \<and> return_date l = None \<and> due_date l < today clock
        \<and> b \<in> set (books s) \<and> b_id b = book_id l
        \<and> m \<in> set (members s) \<and> m_id m = member_id l}"
  by (auto simp: list_overdue_def)

lemma list_overdue_sorted:
  "sorted (map (\<lambda>(l, bt, mn). due_date l) (list_overdue clock s))"
  by (simp add: list_overdue_def)

lemma list_overdue_exact_when_refs_resolve:
  assumes "\<forall>l\<in>set (loans s). book_id l \<in> b_id ` set (books s)
             \<and> member_id l \<in> m_id ` set (members s)"
  shows "fst ` set (list_overdue clock s) =
           {l \<in> set (loans s). return_date l = None \<and> due_date l < today clock}"
proof
  show "fst ` set (list_overdue clock s)
      \<subseteq> {l \<in> set (loans s). return_date l = None \<and> due_date l < today clock}"
    by (auto simp: list_overdue_set)
  show "{l \<in> set (loans s). return_date l = None \<and> due_date l < today clock}
      \<subseteq> fst ` set (list_overdue clock s)"
  proof
    fix l assume "l \<in> {l \<in> set (loans s). return_date l = None \<and> due_date l < today clock}"
    then have l: "l \<in> set (loans s)" "return_date l = None" "due_date l < today clock" by auto
    from assms l(1) obtain b m where "b \<in> set (books s)" "b_id b = book_id l"
      "m \<in> set (members s)" "m_id m = member_id l" by force
    with l have "(l, title b, name m) \<in> set (list_overdue clock s)"
      unfolding list_overdue_set by blast
    then show "l \<in> fst ` set (list_overdue clock s)" by force
  qed
qed

subsection \<open>A due date that cannot be represented\<close>

lemma borrow_book_overflow:
  "int64 b \<Longrightarrow> find (\<lambda>r. b_id r = b) (books s) = Some bk \<Longrightarrow> 0 < copies_available bk \<Longrightarrow>
   valid_date clock \<Longrightarrow> 1000 \<le> year clock \<Longrightarrow>
   999999999 < \<bar>k\<bar> \<or> toordinal clock + k < 1 \<or> 3652059 < toordinal clock + k \<Longrightarrow>
   borrow_book clock b m k s = (Inl OverflowError, s)"
  by (auto simp: borrow_book_def select_book_def today_def parse_date_strftime timedelta_def
      datetime_add_def Let_def)

section \<open>The copy counters stay in range (claim C1)\<close>

text \<open>
  Claim C1 as amended. Start from the empty database that \<open>init_db\<close> creates and run any
  sequence of AddBook, AddMember, BorrowBook, ReturnBook, DeleteBook and DeleteMember
  calls, with any arguments and clock readings, in which every AddBook is given a copy
  count that is not negative (the menu passes counts of at least 1). Then every book row
  satisfies \<open>0 \<le> copies_available \<le> copies_total\<close>.
\<close>

theorem copies_available_in_range:
  "\<forall>x\<in>set xs. copies_nonneg x \<Longrightarrow> r \<in> set (books (run xs (init_db None))) \<Longrightarrow>
     0 \<le> copies_available r \<and> copies_available r \<le> copies_total r"
proof -
  assume ops: "\<forall>x\<in>set xs. copies_nonneg x" and r: "r \<in> set (books (run xs (init_db None)))"
  have i: "store_inv (init_db None)" by (simp add: init_db_def inv_empty)
  have o: "copies_ok (init_db None)" by (simp add: init_db_def empty_store_def copies_ok_def)
  have "store_inv (run xs (init_db None))" using i by (rule inv_run)
  moreover have "copies_ok (run xs (init_db None))" using i o ops by (rule ok_run)
  ultimately show ?thesis using r by (rule inv_bounds)
qed

text \<open>A run of three calls from the empty database, and the book row it leaves.\<close>

theorem copies_available_in_range_witness:
  "list_all copies_nonneg
     [AddBook (Datetime 2024 1 1) (py ''Dune'') (py ''Frank Herbert'') None 2,
      AddMember (Datetime 2024 1 1) (py ''Alice'') (Some (py ''a@x.com'')) None,
      BorrowBook (Datetime 2024 1 1) 1 1 7]
   \<and> \<lparr>b_id = 1, title = py ''Dune'', author = py ''Frank Herbert'', isbn = None,
       copies_total = 2, copies_available = 1, created_at = ''2024-01-01''\<rparr>
     \<in> set (books (run [AddBook (Datetime 2024 1 1) (py ''Dune'') (py ''Frank Herbert'') None 2,
                         AddMember (Datetime 2024 1 1) (py ''Alice'') (Some (py ''a@x.com'')) None,
                         BorrowBook (Datetime 2024 1 1) 1 1 7] (init_db None)))
   \<and> (0::int) \<le> 1 \<and> (1::int) \<le> 2"
  using copies_available_in_range
    [where xs = "[AddBook (Datetime 2024 1 1) (py ''Dune'') (py ''Frank Herbert'') None 2,
                  AddMember (Datetime 2024 1 1) (py ''Alice'') (Some (py ''a@x.com'')) None,
                  BorrowBook (Datetime 2024 1 1) 1 1 7]"
       and r = "\<lparr>b_id = 1, title = py ''Dune'', author = py ''Frank Herbert'', isbn = None,
                 copies_total = 2, copies_available = 1, created_at = ''2024-01-01''\<rparr>"]
  by (simp add: store_defs)

text \<open>Claim C1 as stated fails: \<open>add_book\<close> stores whatever count it is given, so one
  call with the count \<open>-1\<close> leaves a book with \<open>copies_available = -1\<close>.\<close>

theorem copies_available_negative_counterexample:
  "books (run [AddBook (Datetime 2024 1 1) (py ''Dune'') (py ''Frank Herbert'') None (- 1)]
            (init_db None)) =
     [\<lparr>b_id = 1, title = py ''Dune'', author = py ''Frank Herbert'', isbn = None,
       copies_total = - 1, copies_available = - 1, created_at = ''2024-01-01''\<rparr>]
   \<and> \<not> 0 \<le> copies_available
        (hd (books (run [AddBook (Datetime 2024 1 1) (py ''Dune'') (py ''Frank Herbert'') None
                           (- 1)] (init_db None))))"
  by (simp add: store_defs)

section \<open>The outcomes of BorrowBook (claim C2)\<close>

text \<open>
  Claim C2 as amended. For a book id within the signed 64-bit range, \<open>borrow_book\<close>
  checks in this order and writes nothing on the first two outcomes: no book row with
  the id gives "Book not found."; a book whose \<open>copies_available\<close> is not above 0 gives
  "No available copies."; otherwise one loan row is appended with a new id, the given
  book and member ids, \<open>loan_date\<close> the current date, \<open>due_date\<close> the loan date plus the
  duration and \<open>return_date\<close> NULL, and the book's \<open>copies_available\<close> goes down by
  exactly 1, nothing else changes, provided that the member id is within the signed
  64-bit range, the clock shows a year of four digits, the duration is at most
  999999999 days in magnitude, the loan date plus the duration is a date of the years 1
  to 9999, and the loans table still has a row id to hand out.
\<close>

theorem borrow_book_outcomes:
  "int64 b \<Longrightarrow>
   (b \<notin> set (map b_id (books s)) \<longrightarrow>
      borrow_book clock b m k s = (Inr (Book_not_found, None), s))
   \<and> (find (\<lambda>r. b_id r = b) (books s) = Some bk \<and> copies_available bk \<le> 0 \<longrightarrow>
      borrow_book clock b m k s = (Inr (No_available_copies, None), s))
   \<and> (find (\<lambda>r. b_id r = b) (books s) = Some bk \<and> 0 < copies_available bk
        \<and> int64 m \<and> valid_date clock \<and> 1000 \<le> year clock
        \<and> \<bar>k\<bar> \<le> 999999999 \<and> 0 < toordinal clock + k \<and> toordinal clock + k \<le> 3652059
        \<and> autoincrement (seq_loans s) (map l_id (loans s)) = Inr lid \<longrightarrow>
      borrow_book clock b m k s =
        (Inr (Loan_created (strftime (fromordinal (toordinal clock + k))), Some lid),
         s\<lparr>books := map (\<lambda>r. if b_id r = b
                               then r\<lparr>copies_available := copies_available r - 1\<rparr> else r)
                         (books s),
           loans := loans s @
             [\<lparr>l_id = lid, book_id = b, member_id = m, loan_date = strftime clock,
               due_date = strftime (fromordinal (toordinal clock + k)), return_date = None\<rparr>],
           seq_loans := lid\<rparr>))"
proof (intro conjI impI)
  assume b: "int64 b" and "b \<notin> set (map b_id (books s))"
  then have "find (\<lambda>r. b_id r = b) (books s) = None"
    by (auto simp: find_None_iff)
  with b show "borrow_book clock b m k s = (Inr (Book_not_found, None), s)"
    by (simp add: borrow_book_def select_book_def Let_def)
next
  assume "int64 b" and "find (\<lambda>r. b_id r = b) (books s) = Some bk \<and> copies_available bk \<le> 0"
  then show "borrow_book clock b m k s = (Inr (No_available_copies, None), s)"
    by (simp add: borrow_book_def select_book_def Let_def)
next
  assume b: "int64 b"
    and h: "find (\<lambda>r. b_id r = b) (books s) = Some bk \<and> 0 < copies_available bk
        \<and> int64 m \<and> valid_date clock \<and> 1000 \<le> year clock
        \<and> \<bar>k\<bar> \<le> 999999999 \<and> 0 < toordinal clock + k \<and> toordinal clock + k \<le> 3652059
        \<and> autoincrement (seq_loans s) (map l_id (loans s)) = Inr lid"
  then have p: "parse_date (today clock) = Inr clock"
    by (simp add: today_def parse_date_strftime)
  from b h show "borrow_book clock b m k s =
        (Inr (Loan_created (strftime (fromordinal (toordinal clock + k))), Some lid),
         s\<lparr>books := map (\<lambda>r. if b_id r = b
                               then r\<lparr>copies_available := copies_available r - 1\<rparr> else r)
                         (books s),
           loans := loans s @
             [\<lparr>l_id = lid, book_id = b, member_id = m, loan_date = strftime clock,
               due_date = strftime (fromordinal (toordinal clock + k)), return_date = None\<rparr>],
           seq_loans := lid\<rparr>)"
    by (simp add: borrow_book_def select_book_def p insert_loan_def get_conn_def timedelta_def
        datetime_add_def update_copies_available_def Let_def)
      (simp add: today_def)
qed

text \<open>The three outcomes at concrete inputs: an unknown book id, the only copy already
  lent, and a loan of 7 days.\<close>

theorem borrow_book_outcomes_witness:
  "let S0 = run [AddBook (Datetime 2024 1 1) (py ''Dune'') (py ''Frank Herbert'') None 1]
              (init_db None);
       S1 = run [BorrowBook (Datetime 2024 1 1) 1 1 7] S0
   in int64 9 \<and> int64 1 \<and> 9 \<notin> set (map b_id (books S0))
      \<and> borrow_book (Datetime 2024 1 1) 9 1 7 S0 = (Inr (Book_not_found, None), S0)
      \<and> find (\<lambda>r. b_id r = 1) (books S1) =
          Some \<lparr>b_id = 1, title = py ''Dune'', author = py ''Frank Herbert'', isbn = None,
                copies_total = 1, copies_available = 0, created_at = ''2024-01-01''\<rparr>
      \<and> borrow_book (Datetime 2024 1 2) 1 1 7 S1 = (Inr (No_available_copies, None), S1)
      \<and> find (\<lambda>r. b_id r = 1) (books S0) =
          Some \<lparr>b_id = 1, title = py ''Dune'', author = py ''Frank Herbert'', isbn = None,
                copies_total = 1, copies_available = 1, created_at = ''2024-01-01''\<rparr>
      \<and> valid_date (Datetime 2024 1 1) \<and> 1000 \<le> year (Datetime 2024 1 1)
      \<and> toordinal (Datetime 2024 1 1) + 7 = 738893
      \<and> autoincrement (seq_loans S0) (map l_id (loans S0)) = Inr 1
      \<and> borrow_book (Datetime 2024 1 1) 1 1 7 S0 =
          (Inr (Loan_created ''2024-01-08'', Some 1), S1)
      \<and> loans S1 = [\<lparr>l_id = 1, book_id = 1, member_id = 1, loan_date = ''2024-01-01'',
                       due_date = ''2024-01-08'', return_date = None\<rparr>]"
  using borrow_book_outcomes
    [where s = "run [AddBook (Datetime 2024 1 1) (py ''Dune'') (py ''Frank Herbert'') None 1]
                  (init_db None)"
       and b = 9 and clock = "Datetime 2024 1 1" and m = 1 and k = 7]
    borrow_book_outcomes
    [where s = "run [BorrowBook (Datetime 2024 1 1) 1 1 7]
                  (run [AddBook (Datetime 2024 1 1) (py ''Dune'') (py ''Frank Herbert'') None 1]
                     (init_db None))"
       and b = 1 and clock = "Datetime 2024 1 2" and m = 1 and k = 7
       and bk = "\<lparr>b_id = 1, title = py ''Dune'', author = py ''Frank Herbert'', isbn = None,
                   copies_total = 1, copies_available = 0, created_at = ''2024-01-01''\<rparr>"]
    borrow_book_outcomes
    [where s = "run [AddBook (Datetime 2024 1 1) (py ''Dune'') (py ''Frank Herbert'') None 1]
                  (init_db None)"
       and b = 1 and clock = "Datetime 2024 1 1" and m = 1 and k = 7 and lid = 1
       and bk = "\<lparr>b_id = 1, title = py ''Dune'', author = py ''Frank Herbert'', isbn = None,
                   copies_total = 1, copies_available = 1, created_at = ''2024-01-01''\<rparr>"]
  by (simp add: store_defs)

text \<open>Claim C2 as stated fails: the book exists and has a copy, and a duration of
  3000000 days takes the due date past the year 9999; \<open>borrow_book\<close> raises
  \<open>OverflowError\<close> and no loan is inserted.\<close>

theorem borrow_book_overflow_counterexample:
  "books (run [AddBook (Datetime 2024 1 1) (py ''Dune'') (py ''Frank Herbert'') None 1]
            (init_db None)) =
     [\<lparr>b_id = 1, title = py ''Dune'', author = py ''Frank Herbert'', isbn = None,
       copies_total = 1, copies_available = 1, created_at = ''2024-01-01''\<rparr>]
   \<and> borrow_book (Datetime 2024 1 1) 1 1 3000000
       (run [AddBook (Datetime 2024 1 1) (py ''Dune'') (py ''Frank Herbert'') None 1]
          (init_db None)) =
     (Inl OverflowError,
      run [AddBook (Datetime 2024 1 1) (py ''Dune'') (py ''Frank Herbert'') None 1]
        (init_db None))"
  by (simp add: store_defs)

section \<open>Loans of members that do not exist (claim C3)\<close>

text \<open>
  Claim C3 at a failing input. The book reference of a new loan always resolves, since
  \<open>borrow_book\<close> looks the book up first. The member reference is checked by nothing:
  the \<open>REFERENCES\<close> clauses of the schema are enforced only on a connection with
  \<open>PRAGMA foreign_keys = ON\<close>, and \<open>init_db\<close> sets it on its own connection only.
  With one book and no member at all, BorrowBook for member 999 creates the loan.
\<close>

theorem borrow_book_creates_orphan_loan:
  "members (snd (add_book (Datetime 2024 1 1) (py ''Dune'') (py ''Frank Herbert'') None 1
                   empty_store)) = []
   \<and> fst (borrow_book (Datetime 2024 1 1) 1 999 14
           (snd (add_book (Datetime 2024 1 1) (py ''Dune'') (py ''Frank Herbert'') None 1
                   empty_store))) =
       Inr (Loan_created ''2024-01-15'', Some 1)
   \<and> loans (snd (borrow_book (Datetime 2024 1 1) 1 999 14
           (snd (add_book (Datetime 2024 1 1) (py ''Dune'') (py ''Frank Herbert'') None 1
                   empty_store)))) =
       [\<lparr>l_id = 1, book_id = 1, member_id = 999, loan_date = ''2024-01-01'',
         due_date = ''2024-01-15'', return_date = None\<rparr>]
   \<and> members (snd (borrow_book (Datetime 2024 1 1) 1 999 14
           (snd (add_book (Datetime 2024 1 1) (py ''Dune'') (py ''Frank Herbert'') None 1
                   empty_store)))) = []"
  by (simp add: store_defs)

section \<open>AddBook does not validate (claim C4)\<close>

text \<open>
  Claim C4 as amended. \<open>add_book\<close> has no validation step. For every title, author and
  isbn that can be encoded as UTF-8 (no surrogate code point), every copy count within
  the signed 64-bit range (an empty or whitespace-only title or author and a count
  below 1 included) and a books table that still has a row id to hand out, it inserts
  one book row holding the stripped title and author and the count as both
  \<open>copies_total\<close> and \<open>copies_available\<close>, under a rowid no book row has, unless the
  stripped isbn is already stored; in that case it fails with the store's
  \<open>IntegrityError\<close> and the store is unchanged.
\<close>

theorem add_book_no_validation:
  "encodable t \<Longrightarrow> encodable a \<Longrightarrow> encodable_opt i \<Longrightarrow> int64 c \<Longrightarrow>
   autoincrement (seq_books s) (map b_id (books s)) = Inr k \<Longrightarrow>
     (strip_if i = None \<or> strip_if i \<notin> set (map isbn (books s)) \<longrightarrow>
        add_book clock t a i c s =
         (Inr k,
          s\<lparr>books := books s @
                     [\<lparr>b_id = k, title = strip t, author = strip a, isbn = strip_if i,
                       copies_total = c, copies_available = c, created_at = strftime clock\<rparr>],
            seq_books := k\<rparr>)
        \<and> k \<notin> set (map b_id (books s)))
     \<and> (strip_if i \<noteq> None \<and> strip_if i \<in> set (map isbn (books s)) \<longrightarrow>
          add_book clock t a i c s = (Inl IntegrityError, s))"
proof -
  assume t: "encodable t" and a: "encodable a" and i: "encodable_opt i" and c: "int64 c"
    and k: "autoincrement (seq_books s) (map b_id (books s)) = Inr k"
  have b: "bind_params [text_param (strip t), text_param (strip a), opt_text_param (strip_if i),
                         int_param c, int_param c] = None"
    using encodable_strip [OF t] encodable_strip [OF a] encodable_strip_if [OF i] c
    by (simp add: bind_params_Cons text_param_enc int_param_ok)
  show ?thesis
    using autoincrement_fresh [OF k]
    by (auto simp: add_book_def insert_book_def b k today_def Let_def)
qed

text \<open>Both branches at concrete inputs: an empty title and author with zero copies on the
  empty store, and a second book with an isbn already stored.\<close>

theorem add_book_no_validation_witness:
  "encodable [] \<and> encodable_opt None \<and> int64 0
   \<and> autoincrement (seq_books empty_store) (map b_id (books empty_store)) = Inr 1
   \<and> add_book (Datetime 2024 1 1) [] [] None 0 empty_store =
     (Inr 1, \<lparr>books = [\<lparr>b_id = 1, title = [], author = [], isbn = None, copies_total = 0,
                         copies_available = 0, created_at = ''2024-01-01''\<rparr>],
              members = [], loans = [], seq_books = 1, seq_members = 0, seq_loans = 0\<rparr>)
   \<and> encodable (py '' Dune'') \<and> encodable (py ''F. Herbert'')
   \<and> encodable_opt (Some (py ''9780441013593 '')) \<and> int64 2
   \<and> autoincrement 1 [1] = Inr 2
   \<and> strip_if (Some (py ''9780441013593 '')) = Some (py ''9780441013593'')
   \<and> add_book (Datetime 2024 1 2) (py '' Dune'') (py ''F. Herbert'')
         (Some (py ''9780441013593 '')) 2
       \<lparr>books = [\<lparr>b_id = 1, title = py ''Dune'', author = py ''Frank Herbert'',
                   isbn = Some (py ''9780441013593''), copies_total = 1,
                   copies_available = 1, created_at = ''2024-01-01''\<rparr>],
        members = [], loans = [], seq_books = 1, seq_members = 0, seq_loans = 0\<rparr> =
     (Inl IntegrityError,
       \<lparr>books = [\<lparr>b_id = 1, title = py ''Dune'', author = py ''Frank Herbert'',
                   isbn = Some (py ''9780441013593''), copies_total = 1,
                   copies_available = 1, created_at = ''2024-01-01''\<rparr>],
        members = [], loans = [], seq_books = 1, seq_members = 0, seq_loans = 0\<rparr>)"
  using add_book_no_validation
      [where t = "[]" and a = "[]" and i = None and c = 0 and s = empty_store and k = 1
         and clock = "Datetime 2024 1 1"]
    add_book_no_validation
      [where t = "py '' Dune''" and a = "py ''F. Herbert''"
         and i = "Some (py ''9780441013593 '')" and c = 2 and k = 2
         and clock = "Datetime 2024 1 2"
         and s = "\<lparr>books = [\<lparr>b_id = 1, title = py ''Dune'', author = py ''Frank Herbert'',
                   isbn = Some (py ''9780441013593''), copies_total = 1,
                   copies_available = 1, created_at = ''2024-01-01''\<rparr>],
        members = [], loans = [], seq_books = 1, seq_members = 0, seq_loans = 0\<rparr>"]
  by (simp add: store_defs)

text \<open>Claim C4 as stated fails: with an empty title, an empty author and zero copies
  \<open>add_book\<close> returns a new id and the store holds the row.\<close>

theorem add_book_validation_counterexample:
  "fst (add_book (Datetime 2024 1 1) [] [] None 0 empty_store) = Inr 1
   \<and> books (snd (add_book (Datetime 2024 1 1) [] [] None 0 empty_store)) =
       [\<lparr>b_id = 1, title = [], author = [], isbn = None, copies_total = 0,
         copies_available = 0, created_at = ''2024-01-01''\<rparr>]
   \<and> snd (add_book (Datetime 2024 1 1) [] [] None 0 empty_store) \<noteq> empty_store"
  by (simp add: store_defs)

section \<open>Borrow, then return (claim C5)\<close>




section \<open>Returning twice (claim C6)\<close>




section \<open>Deleting books and members (claim C7)\<close>

text \<open>
  Claim C7 as amended. For a book id within the signed 64-bit range: while some loan of
  the book has no return date, DeleteBook reports "Cannot delete" and leaves the store
  unchanged. When every loan of the book is returned, it removes the book row (and
  only changes the books table) and reports "Book deleted (if it existed)."; when in
  addition no book row has the id, the store is unchanged and the report is the same
  one, no error. DeleteMember behaves the same way on members.
\<close>

theorem delete_blocked_while_loan_outstanding:
  "int64 b \<Longrightarrow> int64 m \<Longrightarrow>
   ((\<exists>l\<in>set (loans s). book_id l = b \<and> return_date l = None) \<longrightarrow>
       delete_book b s = (Inr Cannot_delete_book, s))
   \<and> ((\<forall>l\<in>set (loans s). book_id l = b \<longrightarrow> return_date l \<noteq> None) \<longrightarrow>
       delete_book b s =
         (Inr Book_deleted_if_existed, s\<lparr>books := filter (\<lambda>r. b_id r \<noteq> b) (books s)\<rparr>)
       \<and> b \<notin> set (map b_id (books (snd (delete_book b s)))))
   \<and> ((\<forall>l\<in>set (loans s). book_id l = b \<longrightarrow> return_date l \<noteq> None)
        \<and> b \<notin> set (map b_id (books s)) \<longrightarrow>
       delete_book b s = (Inr Book_deleted_if_existed, s))
   \<and> ((\<exists>l\<in>set (loans s). member_id l = m \<and> return_date l = None) \<longrightarrow>
       delete_member m s = (Inr Cannot_delete_member, s))
   \<and> ((\<forall>l\<in>set (loans s). member_id l = m \<longrightarrow> return_date l \<noteq> None) \<longrightarrow>
       delete_member m s =
         (Inr Member_deleted_if_existed,
          s\<lparr>members := filter (\<lambda>r. m_id r \<noteq> m) (members s)\<rparr>)
       \<and> m \<notin> set (map m_id (members (snd (delete_member m s)))))
   \<and> ((\<forall>l\<in>set (loans s). member_id l = m \<longrightarrow> return_date l \<noteq> None)
        \<and> m \<notin> set (map m_id (members s)) \<longrightarrow>
       delete_member m s = (Inr Member_deleted_if_existed, s))"
proof -
  assume b: "int64 b" and m: "int64 m"
  have act_b: "(filter (\<lambda>l. book_id l = b \<and> return_date l = None) (loans s) = []) =
      (\<forall>l\<in>set (loans s). book_id l = b \<longrightarrow> return_date l \<noteq> None)"
    by (auto simp: filter_empty_conv)
  have act_m: "(filter (\<lambda>l. member_id l = m \<and> return_date l = None) (loans s) = []) =
      (\<forall>l\<in>set (loans s). member_id l = m \<longrightarrow> return_date l \<noteq> None)"
    by (auto simp: filter_empty_conv)
  have keep_b: "b \<notin> set (map b_id (books s)) \<Longrightarrow> filter (\<lambda>r. b_id r \<noteq> b) (books s) = books s"
    by (auto simp: filter_id_conv)
  have keep_m: "m \<notin> set (map m_id (members s)) \<Longrightarrow>
      filter (\<lambda>r. m_id r \<noteq> m) (members s) = members s"
    by (auto simp: filter_id_conv)
  have b1: "(\<exists>l\<in>set (loans s). book_id l = b \<and> return_date l = None) \<longrightarrow>
       delete_book b s = (Inr Cannot_delete_book, s)"
    using act_b b by (auto simp: delete_book_def count_active_book_def Let_def)
  have b2: "(\<forall>l\<in>set (loans s). book_id l = b \<longrightarrow> return_date l \<noteq> None) \<longrightarrow>
       delete_book b s =
         (Inr Book_deleted_if_existed, s\<lparr>books := filter (\<lambda>r. b_id r \<noteq> b) (books s)\<rparr>)"
    using act_b b
    by (simp add: delete_book_def count_active_book_def delete_from_books_def get_conn_def Let_def)
  have m1: "(\<exists>l\<in>set (loans s). member_id l = m \<and> return_date l = None) \<longrightarrow>
       delete_member m s = (Inr Cannot_delete_member, s)"
    using act_m m by (auto simp: delete_member_def count_active_member_def Let_def)
  have m2: "(\<forall>l\<in>set (loans s). member_id l = m \<longrightarrow> return_date l \<noteq> None) \<longrightarrow>
       delete_member m s =
         (Inr Member_deleted_if_existed,
          s\<lparr>members := filter (\<lambda>r. m_id r \<noteq> m) (members s)\<rparr>)"
    using act_m m
    by (simp add: delete_member_def count_active_member_def delete_from_members_def get_conn_def
        Let_def)
  show ?thesis
    using b1 b2 m1 m2 keep_b keep_m by auto
qed

text \<open>A book and a member with one loan: both deletions are refused while the loan is
  out, both succeed after its return, and the deletion of ids that do not exist changes
  nothing.\<close>

theorem delete_blocked_while_loan_outstanding_witness:
  "let S1 = run [AddBook (Datetime 2024 1 1) (py ''Dune'') (py ''Frank Herbert'') None 2,
                 AddMember (Datetime 2024 1 1) (py ''Alice'') None None,
                 BorrowBook (Datetime 2024 1 1) 1 1 7] (init_db None);
       S2 = run [ReturnBook (Datetime 2024 1 5) (Datetime 2024 1 5) (Datetime 2024 1 5) 1] S1
   in int64 1 \<and> int64 5
      \<and> map return_date (filter (\<lambda>l. book_id l = 1) (loans S1)) = [None]
      \<and> delete_book 1 S1 = (Inr Cannot_delete_book, S1)
      \<and> map return_date (filter (\<lambda>l. member_id l = 1) (loans S1)) = [None]
      \<and> delete_member 1 S1 = (Inr Cannot_delete_member, S1)
      \<and> map return_date (filter (\<lambda>l. book_id l = 1) (loans S2)) = [Some ''2024-01-05'']
      \<and> fst (delete_book 1 S2) = Inr Book_deleted_if_existed
      \<and> map b_id (books S2) = [1] \<and> books (snd (delete_book 1 S2)) = []
      \<and> map return_date (filter (\<lambda>l. member_id l = 1) (loans S2)) = [Some ''2024-01-05'']
      \<and> fst (delete_member 1 S2) = Inr Member_deleted_if_existed
      \<and> map m_id (members S2) = [1] \<and> members (snd (delete_member 1 S2)) = []
      \<and> filter (\<lambda>l. book_id l = 5) (loans S2) = []
      \<and> delete_book 5 S2 = (Inr Book_deleted_if_existed, S2)
      \<and> filter (\<lambda>l. member_id l = 5) (loans S2) = []
      \<and> delete_member 5 S2 = (Inr Member_deleted_if_existed, S2)"
  using delete_blocked_while_loan_outstanding
    [where s = "run [AddBook (Datetime 2024 1 1) (py ''Dune'') (py ''Frank Herbert'') None 2,
                     AddMember (Datetime 2024 1 1) (py ''Alice'') None None,
                     BorrowBook (Datetime 2024 1 1) 1 1 7] (init_db None)" and b = 1 and m = 1]
    delete_blocked_while_loan_outstanding
    [where s = "run [ReturnBook (Datetime 2024 1 5) (Datetime 2024 1 5) (Datetime 2024 1 5) 1]
                 (run [AddBook (Datetime 2024 1 1) (py ''Dune'') (py ''Frank Herbert'') None 2,
                     AddMember (Datetime 2024 1 1) (py ''Alice'') None None,
                     BorrowBook (Datetime 2024 1 1) 1 1 7] (init_db None))" and b = 1 and m = 1]
    delete_blocked_while_loan_outstanding
    [where s = "run [ReturnBook (Datetime 2024 1 5) (Datetime 2024 1 5) (Datetime 2024 1 5) 1]
                 (run [AddBook (Datetime 2024 1 1) (py ''Dune'') (py ''Frank Herbert'') None 2,
                     AddMember (Datetime 2024 1 1) (py ''Alice'') None None,
                     BorrowBook (Datetime 2024 1 1) 1 1 7] (init_db None))" and b = 5 and m = 5]
  by (simp add: store_defs)

text \<open>Claim C7 as stated fails: the id \<open>2^63\<close> has no row, and DeleteBook and
  DeleteMember raise \<open>OverflowError\<close> when they bind it, where the claim has a silent
  no-op that is reported as such.\<close>

theorem delete_out_of_range_counterexample:
  "books (init_db None) = [] \<and> members (init_db None) = []
   \<and> delete_book 9223372036854775808 (init_db None) = (Inl OverflowError, init_db None)
   \<and> delete_member 9223372036854775808 (init_db None) = (Inl OverflowError, init_db None)"
  by (simp add: store_defs)

section \<open>Overdue loans (claim C8)\<close>

text \<open>
  Claim C8 at a failing input. \<open>list_overdue\<close> is sorted by due date and returns the
  outstanding loans due before the current date that have a book row and a member row
  (\<open>list_overdue_set\<close>, \<open>list_overdue_sorted\<close>); it is exact when every loan's references
  resolve (\<open>list_overdue_exact_when_refs_resolve\<close>). A loan of a member that does not
  exist, which BorrowBook creates, is outstanding and overdue three days after its due
  date and is not listed.
\<close>

theorem list_overdue_misses_orphan_loan:
  "loans (run [AddBook (Datetime 2024 1 1) (py ''Dune'') (py ''Frank Herbert'') None 2,
               BorrowBook (Datetime 2024 1 1) 1 999 1] (init_db None)) =
     [\<lparr>l_id = 1, book_id = 1, member_id = 999, loan_date = ''2024-01-01'',
       due_date = ''2024-01-02'', return_date = None\<rparr>]
   \<and> ''2024-01-02'' < today (Datetime 2024 1 5)
   \<and> list_overdue (Datetime 2024 1 5)
       (run [AddBook (Datetime 2024 1 1) (py ''Dune'') (py ''Frank Herbert'') None 2,
             BorrowBook (Datetime 2024 1 1) 1 999 1] (init_db None)) = []"
  by (simp add: store_defs)

section \<open>Loan rows are never deleted (claim C9)\<close>

text \<open>
  Claim C9. After any sequence of operations the loans table starts with the rows it had
  before, in the same order and with the same id, book id, member id, loan date and due
  date (only \<open>return_date\<close> is ever written, by ReturnBook). DeleteBook and DeleteMember
  leave the loans table exactly as it is: the connection they use has foreign keys
  off, so the \<open>ON DELETE CASCADE\<close> of the schema removes nothing.
\<close>

theorem no_loan_row_deleted:
  "prefix (map loan_cols (loans s)) (map loan_cols (loans (run xs s)))
   \<and> loans (snd (delete_book b s)) = loans s
   \<and> loans (snd (delete_member m s)) = loans s"
proof -
  obtain r1 s1 where d1: "delete_book b s = (r1, s1)" by (cases "delete_book b s")
  obtain r2 s2 where d2: "delete_member m s = (r2, s2)" by (cases "delete_member m s")
  from delete_book_result [OF d1] have "loans s1 = loans s" by auto
  moreover from delete_member_result [OF d2] have "loans s2 = loans s" by auto
  ultimately show ?thesis using run_keeps_loans [of s xs] d1 d2 by simp
qed

text \<open>A returned loan survives the deletion of its book and of its member.\<close>

theorem no_loan_row_deleted_witness:
  "let S2 = run [AddBook (Datetime 2024 1 1) (py ''Dune'') (py ''Frank Herbert'') None 2,
                 AddMember (Datetime 2024 1 1) (py ''Alice'') None None,
                 BorrowBook (Datetime 2024 1 1) 1 1 7,
                 ReturnBook (Datetime 2024 1 5) (Datetime 2024 1 5) (Datetime 2024 1 5) 1]
                (init_db None)
   in books (run [DeleteBook 1, DeleteMember 1] S2) = []
      \<and> members (run [DeleteBook 1, DeleteMember 1] S2) = []
      \<and> loans (run [DeleteBook 1, DeleteMember 1] S2) =
          [\<lparr>l_id = 1, book_id = 1, member_id = 1, loan_date = ''2024-01-01'',
            due_date = ''2024-01-08'', return_date = Some ''2024-01-05''\<rparr>]
      \<and> prefix (map loan_cols (loans S2))
               (map loan_cols (loans (run [DeleteBook 1, DeleteMember 1] S2)))"
  using no_loan_row_deleted
    [where s = "run [AddBook (Datetime 2024 1 1) (py ''Dune'') (py ''Frank Herbert'') None 2,
                 AddMember (Datetime 2024 1 1) (py ''Alice'') None None,
                 BorrowBook (Datetime 2024 1 1) 1 1 7,
                 ReturnBook (Datetime 2024 1 5) (Datetime 2024 1 5) (Datetime 2024 1 5) 1]
                (init_db None)"
       and xs = "[DeleteBook 1, DeleteMember 1]" and b = 1 and m = 1]
  by (simp add: store_defs loan_cols_def)

section \<open>Text fields are stored stripped (claim C10)\<close>

text \<open>
  Claim C10. When AddBook succeeds the new row holds \<open>title.strip()\<close>, \<open>author.strip()\<close>
  and, for an isbn that is given (not \<open>None\<close> and not empty), \<open>isbn.strip()\<close>; when
  AddMember succeeds the new row holds \<open>name.strip()\<close> and the stripped email and phone
  in the same way. \<open>strip\<close> removes exactly the leading and the trailing whitespace of
  Unicode (lemma \<open>strip_spec\<close>), so a title, author or name made of whitespace only is
  stored as the empty string. Such a call is not rejected: it succeeds whenever the
  other fields can be bound (texts without surrogates, a count within 64 bits), the
  table has a row id to hand out and the isbn (the email) is not already stored.
\<close>

theorem add_stores_stripped_fields:
  "(add_book clock t a i c s = (Inr k, s') \<longrightarrow>
      books s' = books s @
        [\<lparr>b_id = k, title = strip t, author = strip a, isbn = strip_if i,
          copies_total = c, copies_available = c, created_at = today clock\<rparr>])
   \<and> (add_member clock n e p s = (Inr k, s'') \<longrightarrow>
      members s'' = members s @
        [\<lparr>m_id = k, name = strip n, email = strip_if e, phone = strip_if p,
          joined_at = today clock\<rparr>])
   \<and> (list_all isspace t \<longrightarrow> strip t = [])
   \<and> (list_all isspace t \<and> encodable a \<and> encodable_opt i \<and> int64 c
        \<and> autoincrement (seq_books s) (map b_id (books s)) = Inr kb
        \<and> (strip_if i = None \<or> strip_if i \<notin> set (map isbn (books s))) \<longrightarrow>
        fst (add_book clock t a i c s) = Inr kb)
   \<and> (encodable t \<and> list_all isspace a \<and> encodable_opt i \<and> int64 c
        \<and> autoincrement (seq_books s) (map b_id (books s)) = Inr kb
        \<and> (strip_if i = None \<or> strip_if i \<notin> set (map isbn (books s))) \<longrightarrow>
        fst (add_book clock t a i c s) = Inr kb)
   \<and> (list_all isspace n \<and> encodable_opt e \<and> encodable_opt p
        \<and> autoincrement (seq_members s) (map m_id (members s)) = Inr km
        \<and> (strip_if e = None \<or> strip_if e \<notin> set (map email (members s))) \<longrightarrow>
        fst (add_member clock n e p s) = Inr km)"
proof (intro conjI impI)
  assume r: "add_book clock t a i c s = (Inr k, s')"
  from add_book_result [OF r]
  show "books s' = books s @
        [\<lparr>b_id = k, title = strip t, author = strip a, isbn = strip_if i,
          copies_total = c, copies_available = c, created_at = today clock\<rparr>]"
    by auto
next
  assume r: "add_member clock n e p s = (Inr k, s'')"
  from add_member_result [OF r]
  show "members s'' = members s @
        [\<lparr>m_id = k, name = strip n, email = strip_if e, phone = strip_if p,
          joined_at = today clock\<rparr>]"
    by auto
next
  assume "list_all isspace t"
  then show "strip t = []" by (rule strip_all_space)
next
  assume h: "list_all isspace t \<and> encodable a \<and> encodable_opt i \<and> int64 c
        \<and> autoincrement (seq_books s) (map b_id (books s)) = Inr kb
        \<and> (strip_if i = None \<or> strip_if i \<notin> set (map isbn (books s)))"
  then have b: "bind_params [text_param (strip t), text_param (strip a),
      opt_text_param (strip_if i), int_param c, int_param c] = None"
    using encodable_strip [of a] encodable_strip_if [of i] encodable_space [of "strip t"]
    by (simp add: bind_params_Cons strip_all_space text_param_enc int_param_ok)
  from h show "fst (add_book clock t a i c s) = Inr kb"
    by (auto simp: add_book_def insert_book_def b Let_def)
next
  assume h: "encodable t \<and> list_all isspace a \<and> encodable_opt i \<and> int64 c
        \<and> autoincrement (seq_books s) (map b_id (books s)) = Inr kb
        \<and> (strip_if i = None \<or> strip_if i \<notin> set (map isbn (books s)))"
  then have b: "bind_params [text_param (strip t), text_param (strip a),
      opt_text_param (strip_if i), int_param c, int_param c] = None"
    using encodable_strip [of t] encodable_strip_if [of i] encodable_space [of "strip a"]
    by (simp add: bind_params_Cons strip_all_space text_param_enc int_param_ok)
  from h show "fst (add_book clock t a i c s) = Inr kb"
    by (auto simp: add_book_def insert_book_def b Let_def)
next
  assume h: "list_all isspace n \<and> encodable_opt e \<and> encodable_opt p
        \<and> autoincrement (seq_members s) (map m_id (members s)) = Inr km
        \<and> (strip_if e = None \<or> strip_if e \<notin> set (map email (members s)))"
  then have b: "bind_params [text_param (strip n), opt_text_param (strip_if e),
      opt_text_param (strip_if p)] = None"
    using encodable_strip_if [of e] encodable_strip_if [of p] encodable_space [of "strip n"]
    by (simp add: bind_params_Cons strip_all_space text_param_enc int_param_ok)
  from h show "fst (add_member clock n e p s) = Inr km"
    by (auto simp: add_member_def insert_member_def b Let_def)
qed

text \<open>A title of an ideographic space, a space and a tab; an author of a space and a
  line separator; a name of one Ogham space mark; fields with spaces around them.\<close>

theorem add_stores_stripped_fields_witness:
  "add_book (Datetime 2024 1 1) [12288, 32, 9] (py '' Frank Herbert  '')
       (Some (py '' 9780441013593'')) 2 empty_store =
     (Inr 1, empty_store\<lparr>books := [\<lparr>b_id = 1, title = [], author = py ''Frank Herbert'',
        isbn = Some (py ''9780441013593''), copies_total = 2, copies_available = 2,
        created_at = ''2024-01-01''\<rparr>], seq_books := 1\<rparr>)
   \<and> add_book (Datetime 2024 1 1) (8195 # py ''Dune'' @ [160]) [32, 8232] None 2 empty_store =
     (Inr 1, empty_store\<lparr>books := [\<lparr>b_id = 1, title = py ''Dune'', author = [],
        isbn = None, copies_total = 2, copies_available = 2,
        created_at = ''2024-01-01''\<rparr>], seq_books := 1\<rparr>)
   \<and> add_member (Datetime 2024 1 1) [5760] (Some (py ''a@x.com  '')) (Some []) empty_store =
     (Inr 1, empty_store\<lparr>members := [\<lparr>m_id = 1, name = [], email = Some (py ''a@x.com''),
        phone = None, joined_at = ''2024-01-01''\<rparr>], seq_members := 1\<rparr>)
   \<and> list_all isspace [12288, 32, 9] \<and> strip [12288, 32, 9] = []
   \<and> list_all isspace [32, 8232] \<and> list_all isspace [5760]
   \<and> encodable (py '' Frank Herbert  '') \<and> encodable (8195 # py ''Dune'' @ [160])
   \<and> encodable_opt (Some (py '' 9780441013593'')) \<and> int64 2
   \<and> autoincrement (seq_books empty_store) (map b_id (books empty_store)) = Inr 1
   \<and> autoincrement (seq_members empty_store) (map m_id (members empty_store)) = Inr 1"
  using add_stores_stripped_fields
    [where clock = "Datetime 2024 1 1" and t = "[12288, 32, 9]"
       and a = "py '' Frank Herbert  ''"
       and i = "Some (py '' 9780441013593'')" and c = 2 and s = empty_store and k = 1
       and kb = 1 and km = 1
       and s' = "snd (add_book (Datetime 2024 1 1) [12288, 32, 9] (py '' Frank Herbert  '')
                        (Some (py '' 9780441013593'')) 2 empty_store)"
       and n = "[5760]" and e = "Some (py ''a@x.com  '')" and p = "Some []"
       and s'' = "snd (add_member (Datetime 2024 1 1) [5760] (Some (py ''a@x.com  ''))
                        (Some []) empty_store)"]
    add_stores_stripped_fields
    [where clock = "Datetime 2024 1 1" and t = "8195 # py ''Dune'' @ [160]"
       and a = "[32, 8232]" and i = None and c = 2 and s = empty_store and k = 1
       and kb = 1 and km = 1
       and s' = "snd (add_book (Datetime 2024 1 1) (8195 # py ''Dune'' @ [160]) [32, 8232]
                        None 2 empty_store)"
       and n = "[5760]" and e = "Some (py ''a@x.com  '')" and p = "Some []"
       and s'' = "snd (add_member (Datetime 2024 1 1) [5760] (Some (py ''a@x.com  ''))
                        (Some []) empty_store)"]
  by (simp add: store_defs)

end
